theory Spec2Isabelle
  imports Main
begin

section \<open>Python strings\<close>

text \<open>
  A Python \<^verbatim>\<open>str\<close> is modelled as a \<^typ>\<open>string\<close>; a \<^typ>\<open>char\<close> stands for a
  code point below 256.  \<^verbatim>\<open>str.strip()\<close> removes the characters for which
  \<^verbatim>\<open>str.isspace\<close> holds, \<^verbatim>\<open>str.lower()\<close> maps the upper-case letters of that
  range to their lower-case partners.
\<close>

definition isspace :: "char \<Rightarrow> bool" where
  "isspace c =
     (let n = (of_char c :: nat)
      in (9 \<le> n \<and> n \<le> 13) \<or> (28 \<le> n \<and> n \<le> 32) \<or> n = 133 \<or> n = 160)"

definition py_strip :: "string \<Rightarrow> string" where
  "py_strip s = rev (dropWhile isspace (rev (dropWhile isspace s)))"

definition lower_char :: "char \<Rightarrow> char" where
  "lower_char c =
     (let n = (of_char c :: nat)
      in if (65 \<le> n \<and> n \<le> 90) \<or> (192 \<le> n \<and> n \<le> 222 \<and> n \<noteq> 215)
         then char_of (n + 32) else c)"

definition py_lower :: "string \<Rightarrow> string" where
  "py_lower s = map lower_char s"

fun py_join :: "string \<Rightarrow> string list \<Rightarrow> string" where
  "py_join sep [] = []"
| "py_join sep [x] = x"
| "py_join sep (x # y # ys) = x @ sep @ py_join sep (y # ys)"

text \<open>\<^verbatim>\<open>str(n)\<close> for a non-negative integer: its decimal digits.\<close>

fun str_nat :: "nat \<Rightarrow> string" where
  "str_nat n =
     (if n < 10 then [char_of (48 + n)]
      else str_nat (n div 10) @ [char_of (48 + n mod 10)])"

declare str_nat.simps [simp del]

text \<open>Truthiness of \<^verbatim>\<open>None\<close>, a string, and of \<^verbatim>\<open>True\<close>/\<^verbatim>\<open>False\<close>/\<^verbatim>\<open>None\<close>.\<close>

definition truthy_str :: "string option \<Rightarrow> bool" where
  "truthy_str v = (case v of None \<Rightarrow> False | Some x \<Rightarrow> x \<noteq> [])"

definition truthy_bool :: "bool option \<Rightarrow> bool" where
  "truthy_bool v = (case v of None \<Rightarrow> False | Some b \<Rightarrow> b)"

section \<open>Data model\<close>

text \<open>
  A row of the table \<^verbatim>\<open>articles\<close> (\<^verbatim>\<open>setup_database\<close>): \<^verbatim>\<open>id INTEGER PRIMARY KEY\<close>,
  \<^verbatim>\<open>link TEXT UNIQUE\<close>, \<^verbatim>\<open>title\<close>, \<^verbatim>\<open>keywords\<close> (here \<open>keywords_text\<close>), \<^verbatim>\<open>telegram_link\<close> and \<^verbatim>\<open>datetime\<close>.
  Times are microseconds since the epoch.  The column \<^verbatim>\<open>datetime\<close> holds the text
  \<^verbatim>\<open>YYYY-MM-DD HH:MM:SS\<close> of a UTC instant, a whole number of seconds; the order of
  such texts (and of a Python datetime's text, which adds the microseconds after the
  seconds) is the order of the instants, so the model compares the numbers.
\<close>

record article =
  rowid :: nat
  link :: string
  title :: string
  keywords_text :: string
  telegram_link :: "string option"
  datetime :: int

text \<open>A feed entry; a missing attribute (\<^verbatim>\<open>entry.link\<close> raises AttributeError) is \<open>None\<close>.\<close>

record entry =
  entry_link :: "string option"
  entry_title :: "string option"

text \<open>The exceptions of the program, all subclasses of \<^verbatim>\<open>Exception\<close>.\<close>

datatype exn =
    AttributeError
  | OperationalError
  | RequestException
  | FormatError

text \<open>
  The reply of \<^verbatim>\<open>openai_client.chat.completions.create\<close>: the call raises, or it returns
  a message whose \<^verbatim>\<open>content\<close> is a string or \<^verbatim>\<open>None\<close>.
\<close>

datatype chat_result = ChatRaises | ChatContent "string option"

text \<open>
  \<^verbatim>\<open>parse_html\<close> inside \<^verbatim>\<open>clean_html\<close>: BeautifulSoup raises, the five seconds pass first,
  or \<^verbatim>\<open>soup.get_text(separator="\n").splitlines()\<close> gives these lines.
\<close>

datatype parse_result = ParseRaises | ParseTimeout | ParsedLines "string list"

record image_response =
  status_code :: nat
  content_type :: string
  image_size :: "(nat \<times> nat) option"

text \<open>
  Everything outside the program, and its configuration.  An oracle's first argument is
  the number of effects the program has performed so far, so the same call can be
  answered differently at different moments.  \<open>None\<close> stands for a call that raises.
  \<open>filter_prompt\<close> and \<open>summary_prompt\<close> are \<^verbatim>\<open>str.format\<close> applied to the configured
  templates (\<open>None\<close>: the template makes \<^verbatim>\<open>format\<close> raise).  \<open>tz_offset\<close> is the local
  time zone's offset from UTC.
\<close>

record world =
  RSS_FEEDS :: "string list"
  CHANNEL_ID :: "string option"
  filter_prompt :: "string \<Rightarrow> string option"
  summary_prompt :: "string \<Rightarrow> string \<Rightarrow> string option"
  feed_entries :: "nat \<Rightarrow> string \<Rightarrow> entry list"
  db_fault :: "nat \<Rightarrow> bool"
  chat_completion :: "nat \<Rightarrow> string \<Rightarrow> chat_result"
  requests_get :: "nat \<Rightarrow> string \<Rightarrow> string option"
  soup_text :: "nat \<Rightarrow> string \<Rightarrow> parse_result"
  soup_og_image :: "nat \<Rightarrow> string \<Rightarrow> string option option"
  image_get :: "nat \<Rightarrow> string \<Rightarrow> image_response option"
  send_photo :: "nat \<Rightarrow> string \<Rightarrow> string \<Rightarrow> nat option"
  send_message :: "nat \<Rightarrow> string \<Rightarrow> nat option"
  utc_now :: "nat \<Rightarrow> int"
  tz_offset :: int

text \<open>The effects of the program, in the order they happen.\<close>

datatype event =
    ParseFeed string
  | DbSelectTitles
  | DbSelectLink string
  | DbInsert string
  | DbDelete
  | TitleSimilar string
  | FilterArticle string
  | GenerateContent string
  | OpenAI string
  | HttpGet string
  | CleanHtml string
  | FindOgImage string
  | ImageGet string
  | SendPhoto string string
  | SendMessage string
  | Delivered string
  | Sleep int
  | CycleStart
  | ArticleProcessingError exn
  | MainLoopError exn

record state =
  store :: "article list"
  tick :: nat
  log :: "event list"

definition emit :: "event \<Rightarrow> state \<Rightarrow> state" where
  "emit e s = s\<lparr>tick := Suc (tick s), log := log s @ [e]\<rparr>"

section \<open>Clock\<close>

definition seconds :: "int \<Rightarrow> int" where
  "seconds n = n * 1000000"

definition timedelta_hours :: "int \<Rightarrow> int" where
  "timedelta_hours n = seconds (n * 3600)"

definition timedelta_days :: "int \<Rightarrow> int" where
  "timedelta_days n = seconds (n * 86400)"

text \<open>\<^verbatim>\<open>datetime.now()\<close>: the local wall clock, without time zone.\<close>

definition datetime_now :: "world \<Rightarrow> nat \<Rightarrow> int" where
  "datetime_now w t = utc_now w t + tz_offset w"

text \<open>SQLite's \<^verbatim>\<open>CURRENT_TIMESTAMP\<close>: UTC, cut to the second.\<close>

definition CURRENT_TIMESTAMP :: "world \<Rightarrow> nat \<Rightarrow> int" where
  "CURRENT_TIMESTAMP w t = (utc_now w t div seconds 1) * seconds 1"

section \<open>History store\<close>

definition next_rowid :: "article list \<Rightarrow> nat" where
  "next_rowid xs = Suc (fold max (map rowid xs) 0)"

text \<open>
  \<^verbatim>\<open>cleanup_old_articles\<close>: \<^verbatim>\<open>DELETE FROM articles WHERE datetime < ?\<close> with
  \<^verbatim>\<open>datetime.now() - timedelta(days=7)\<close>.
\<close>

definition cleanup_old_articles :: "world \<Rightarrow> state \<Rightarrow> (exn + unit) \<times> state" where
  "cleanup_old_articles w s =
     (if db_fault w (tick s) then (Inl OperationalError, emit DbDelete s)
      else
        let cutoff_date = datetime_now w (tick s) - timedelta_days 7
        in (Inr (), emit DbDelete
              (s\<lparr>store := filter (\<lambda>a. \<not> datetime a < cutoff_date) (store s)\<rparr>)))"

text \<open>
  \<^verbatim>\<open>save_article_to_db\<close>: the INSERT violates \<^verbatim>\<open>link TEXT UNIQUE\<close> when the link is
  stored already; the IntegrityError is caught and logged.  Any other database error
  leaves the function.
\<close>

definition save_article_to_db ::
  "world \<Rightarrow> string \<Rightarrow> string \<Rightarrow> string \<Rightarrow> string option \<Rightarrow> state \<Rightarrow> (exn + unit) \<times> state" where
  "save_article_to_db w lnk ttl kws tlink s =
     (if db_fault w (tick s) then (Inl OperationalError, emit (DbInsert lnk) s)
      else if lnk \<in> set (map link (store s)) then (Inr (), emit (DbInsert lnk) s)
      else (Inr (), emit (DbInsert lnk)
              (s\<lparr>store := store s @
                  [\<lparr>rowid = next_rowid (store s), link = lnk, title = ttl, keywords_text = kws,
                    telegram_link = tlink, datetime = CURRENT_TIMESTAMP w (tick s)\<rparr>]\<rparr>)))"

text \<open>\<^verbatim>\<open>SELECT 1 FROM articles WHERE link = ?\<close> and \<^verbatim>\<open>fetchone()\<close>.\<close>

definition already_exists :: "world \<Rightarrow> string \<Rightarrow> state \<Rightarrow> (exn + bool) \<times> state" where
  "already_exists w lnk s =
     (if db_fault w (tick s) then (Inl OperationalError, emit (DbSelectLink lnk) s)
      else (Inr (lnk \<in> set (map link (store s))), emit (DbSelectLink lnk) s))"

text \<open>
  \<^verbatim>\<open>SELECT title FROM articles ORDER BY datetime DESC LIMIT 30\<close>: the newest first; rows
  of equal \<^verbatim>\<open>datetime\<close> stay in the order of their insertion (the sort is stable).
\<close>

definition select_titles :: "article list \<Rightarrow> string list" where
  "select_titles xs = take 30 (map title (sort_key (\<lambda>a. - datetime a) xs))"

section \<open>Content extractor and image resolver\<close>

definition clean_html :: "world \<Rightarrow> string \<Rightarrow> state \<Rightarrow> string \<times> state" where
  "clean_html w html s =
     (case soup_text w (tick s) html of
        ParsedLines ls \<Rightarrow>
          (py_join [CHR 0x0A] (filter (\<lambda>l. l \<noteq> []) (map py_strip ls)), emit (CleanHtml html) s)
      | ParseRaises \<Rightarrow> ([], emit (CleanHtml html) s)
      | ParseTimeout \<Rightarrow> ([], emit (CleanHtml html) s))"

definition extract_main_image :: "world \<Rightarrow> string \<Rightarrow> state \<Rightarrow> string option \<times> state" where
  "extract_main_image w html s =
     (let s1 = emit (FindOgImage html) s in
      (case soup_og_image w (tick s) html of
         None \<Rightarrow> (None, s1)
       | Some None \<Rightarrow> (None, s1)
       | Some (Some image_url) \<Rightarrow>
           (if image_url = [] then (None, s1)
            else
              (let s2 = emit (ImageGet image_url) s1 in
               (case image_get w (tick s1) image_url of
                  None \<Rightarrow> (None, s2)
                | Some response \<Rightarrow>
                    (if status_code response = 200 then
                       (if take 6 (content_type response) = ''image/'' then
                          (case image_size response of
                             None \<Rightarrow> (None, s2)
                           | Some (width, height) \<Rightarrow>
                               (if 300 \<le> width \<and> 300 \<le> height then (Some image_url, s2)
                                else (None, s2)))
                        else (None, s2))
                     else (None, s2)))))))"

section \<open>Classifiers and generator\<close>

text \<open>
  \<^verbatim>\<open>filter_article\<close>.  The prompt is formatted before the \<^verbatim>\<open>try\<close>, so a failing
  \<^verbatim>\<open>format\<close> leaves the function; inside the \<^verbatim>\<open>try\<close>, a raising call and a
  \<^verbatim>\<open>content\<close> of \<^verbatim>\<open>None\<close> (no \<^verbatim>\<open>strip\<close>) both end in \<^verbatim>\<open>return None\<close>.
\<close>

definition filter_article ::
  "world \<Rightarrow> string \<Rightarrow> string \<Rightarrow> state \<Rightarrow> (exn + bool option) \<times> state" where
  "filter_article w cleaned_text lnk s =
     (let s1 = emit (FilterArticle cleaned_text) s in
      case filter_prompt w (take 3000 cleaned_text) of
        None \<Rightarrow> (Inl FormatError, s1)
      | Some prompt \<Rightarrow>
          (let s2 = emit (OpenAI prompt) s1 in
           case chat_completion w (tick s1) prompt of
             ChatRaises \<Rightarrow> (Inr None, s2)
           | ChatContent None \<Rightarrow> (Inr None, s2)
           | ChatContent (Some content) \<Rightarrow>
               (let answer = py_lower (py_strip content)
                in (Inr (Some (py_lower answer = ''yes'')), s2))))"

definition title_prompt :: "string \<Rightarrow> string list \<Rightarrow> string" where
  "title_prompt new_title existing_titles =
     (let formatted_existing_titles = py_join [CHR 0x0A] (map (\<lambda>t. ''- '' @ t) existing_titles)
      in py_join [CHR 0x0A]
          ['''',
           ''    Check if the following new title is too similar to any of the existing titles.'',
           ''    '',
           ''    New title:'',
           ''    '' @ [CHR 0x22] @ new_title @ [CHR 0x22],
           '''',
           ''    Existing titles:'',
           ''    '' @ formatted_existing_titles,
           ''    '',
           ''    Answer '' @ [CHR 0x22] @ ''Yes'' @ [CHR 0x22] @
             '' if the new title is too similar to any of the existing titles. '',
           ''    Otherwise, answer '' @ [CHR 0x22] @ ''No'' @ [CHR 0x22] @ ''.'',
           ''    '',
           ''    ONLY reply with '' @ [CHR 0x22] @ ''Yes'' @ [CHR 0x22] @ '' or '' @
             [CHR 0x22] @ ''No'' @ [CHR 0x22] @ ''.'',
           ''    ''])"

definition is_title_similar_with_chatgpt ::
  "world \<Rightarrow> string \<Rightarrow> string list \<Rightarrow> state \<Rightarrow> bool option \<times> state" where
  "is_title_similar_with_chatgpt w new_title existing_titles s =
     (let prompt = title_prompt new_title existing_titles;
          s1 = emit (TitleSimilar new_title) s;
          s2 = emit (OpenAI prompt) s1 in
      case chat_completion w (tick s1) prompt of
        ChatRaises \<Rightarrow> (None, s2)
      | ChatContent None \<Rightarrow> (None, s2)
      | ChatContent (Some content) \<Rightarrow>
          (let decision = py_lower (py_strip content)
           in (Some (decision = ''yes''), s2)))"

definition generate_content ::
  "world \<Rightarrow> string \<Rightarrow> string \<Rightarrow> state \<Rightarrow> (exn + string option) \<times> state" where
  "generate_content w cleaned_text lnk s =
     (let s1 = emit (GenerateContent cleaned_text) s in
      if py_strip cleaned_text = [] then (Inr None, s1)
      else
        case summary_prompt w cleaned_text lnk of
          None \<Rightarrow> (Inl FormatError, s1)
        | Some prompt \<Rightarrow>
            (let s2 = emit (OpenAI prompt) s1 in
             case chat_completion w (tick s1) prompt of
               ChatRaises \<Rightarrow> (Inr None, s2)
             | ChatContent None \<Rightarrow> (Inr None, s2)
             | ChatContent (Some content) \<Rightarrow> (Inr (Some (py_strip content)), s2)))"

section \<open>Publisher\<close>

text \<open>
  The link of a sent message; \<^verbatim>\<open>CHANNEL_ID.replace\<close> raises AttributeError when the
  channel is not configured.
\<close>

definition telegram_message_link :: "string option \<Rightarrow> nat \<Rightarrow> string option" where
  "telegram_message_link channel message_id =
     (case channel of
        None \<Rightarrow> None
      | Some c \<Rightarrow>
          Some (''https://t.me/'' @ filter (\<lambda>x. x \<noteq> CHR ''-'') c @ ''/'' @ str_nat message_id))"

text \<open>
  The outcome of the \<^verbatim>\<open>try\<close> body of \<^verbatim>\<open>publish_to_telegram\<close> at moment \<open>t\<close>: the link,
  or \<open>None\<close> when the send or the construction of the link raises.
\<close>

definition delivery :: "world \<Rightarrow> string \<Rightarrow> string option \<Rightarrow> nat \<Rightarrow> string option" where
  "delivery w post photo_url t =
     (case (if truthy_str photo_url then send_photo w t (the photo_url) post
            else send_message w t post) of
        None \<Rightarrow> None
      | Some message_id \<Rightarrow> telegram_message_link (CHANNEL_ID w) message_id)"

definition send_event :: "string \<Rightarrow> string option \<Rightarrow> event" where
  "send_event post photo_url =
     (if truthy_str photo_url then SendPhoto (the photo_url) post else SendMessage post)"

text \<open>One pass of the loop body: the \<^verbatim>\<open>try\<close>, and the \<^verbatim>\<open>sleep\<close> of its \<^verbatim>\<open>except\<close>.\<close>

definition attempt ::
  "world \<Rightarrow> string \<Rightarrow> string option \<Rightarrow> state \<Rightarrow> string option \<times> state" where
  "attempt w post photo_url s =
     (let s1 = emit (send_event post photo_url) s in
      case delivery w post photo_url (tick s) of
        Some message_link \<Rightarrow> (Some message_link, emit (Delivered message_link) s1)
      | None \<Rightarrow> (None, emit (Sleep (seconds 5)) s1))"

text \<open>\<^verbatim>\<open>for attempt in range(3)\<close>, by the number of passes left.\<close>

fun attempts ::
  "nat \<Rightarrow> world \<Rightarrow> string \<Rightarrow> string option \<Rightarrow> state \<Rightarrow> string option \<times> state" where
  "attempts 0 w post photo_url s = (None, s)"
| "attempts (Suc n) w post photo_url s =
     (case attempt w post photo_url s of
        (Some message_link, s1) \<Rightarrow> (Some message_link, s1)
      | (None, s1) \<Rightarrow> attempts n w post photo_url s1)"

definition publish_to_telegram ::
  "world \<Rightarrow> string \<Rightarrow> string option \<Rightarrow> state \<Rightarrow> string option \<times> state" where
  "publish_to_telegram w post photo_url s = attempts 3 w post photo_url s"

section \<open>Pipeline orchestrator\<close>

text \<open>
  The body of the \<^verbatim>\<open>try\<close> of \<^verbatim>\<open>process_rss_feed\<close> for one entry, in two parts; \<open>Inr ()\<close>
  is a \<^verbatim>\<open>continue\<close> or the end of the body, \<open>Inl\<close> an exception on its way to the
  \<^verbatim>\<open>except\<close>.  \<open>article_processing\<close> is the part under the comment
  \<^verbatim>\<open># Main process: article processing\<close>: fetch, extract, filter, generate, image, publish
  and save.
\<close>

definition article_processing ::
  "world \<Rightarrow> string \<Rightarrow> string \<Rightarrow> state \<Rightarrow> (exn + unit) \<times> state" where
  "article_processing w lnk new_title s =
     (case requests_get w (tick s) lnk of
        None \<Rightarrow> (Inl RequestException, emit (HttpGet lnk) s)
      | Some html \<Rightarrow>
     (case clean_html w html (emit (HttpGet lnk) s) of
        (cleaned_text, s4) \<Rightarrow>
     (case filter_article w cleaned_text lnk s4 of
        (Inl x, s5) \<Rightarrow> (Inl x, s5)
      | (Inr passed, s5) \<Rightarrow>
     if \<not> truthy_bool passed then (Inr (), s5)
     else
     (case generate_content w cleaned_text lnk s5 of
        (Inl x, s6) \<Rightarrow> (Inl x, s6)
      | (Inr post, s6) \<Rightarrow>
     if \<not> truthy_str post then (Inr (), s6)
     else
     (case extract_main_image w html s6 of
        (photo_url, s7) \<Rightarrow>
     (case publish_to_telegram w (the post) photo_url s7 of
        (tlink, s8) \<Rightarrow>
     if truthy_str tlink
     then save_article_to_db w lnk new_title cleaned_text tlink s8
     else (Inr (), s8)))))))"

definition entry_body :: "world \<Rightarrow> string list \<Rightarrow> entry \<Rightarrow> state \<Rightarrow> (exn + unit) \<times> state" where
  "entry_body w existing_titles e s =
     (case entry_link e of
        None \<Rightarrow> (Inl AttributeError, s)
      | Some lnk \<Rightarrow>
     (case entry_title e of
        None \<Rightarrow> (Inl AttributeError, s)
      | Some new_title \<Rightarrow>
     (case already_exists w lnk s of
        (Inl x, s1) \<Rightarrow> (Inl x, s1)
      | (Inr found, s1) \<Rightarrow>
     if found then (Inr (), s1)
     else
     (case is_title_similar_with_chatgpt w new_title existing_titles s1 of
        (similar, s2) \<Rightarrow>
     if truthy_bool similar then (Inr (), s2)
     else article_processing w lnk new_title s2))))"

text \<open>
  The \<^verbatim>\<open>except Exception\<close> of the entry: it logs \<^verbatim>\<open>entry.link\<close>, which raises again
  for an entry without a link.
\<close>

definition process_entry :: "world \<Rightarrow> string list \<Rightarrow> entry \<Rightarrow> state \<Rightarrow> (exn + unit) \<times> state" where
  "process_entry w existing_titles e s =
     (case entry_body w existing_titles e s of
        (Inr u, s1) \<Rightarrow> (Inr (), s1)
      | (Inl x, s1) \<Rightarrow>
          (case entry_link e of
             None \<Rightarrow> (Inl AttributeError, s1)
           | Some lnk \<Rightarrow> (Inr (), emit (ArticleProcessingError x) s1)))"

fun process_entries ::
  "world \<Rightarrow> string list \<Rightarrow> entry list \<Rightarrow> state \<Rightarrow> (exn + unit) \<times> state" where
  "process_entries w existing_titles [] s = (Inr (), s)"
| "process_entries w existing_titles (e # es) s =
     (case process_entry w existing_titles e s of
        (Inl x, s1) \<Rightarrow> (Inl x, s1)
      | (Inr u, s1) \<Rightarrow> process_entries w existing_titles es s1)"

definition process_rss_feed :: "world \<Rightarrow> string \<Rightarrow> state \<Rightarrow> (exn + unit) \<times> state" where
  "process_rss_feed w feed_url s =
     (let entries = feed_entries w (tick s) feed_url;
          s1 = emit (ParseFeed feed_url) s;
          s2 = emit DbSelectTitles s1 in
      if db_fault w (tick s1) then (Inl OperationalError, s2)
      else process_entries w (select_titles (store s1)) entries s2)"

section \<open>Scheduler\<close>

text \<open>
  \<^verbatim>\<open>wait_until_next_hour\<close>: the next full hour of the local clock is
  \<^verbatim>\<open>(now + timedelta(hours=1)).replace(minute=0, second=0, microsecond=0)\<close>.
\<close>

definition wait_until_next_hour :: "world \<Rightarrow> state \<Rightarrow> state" where
  "wait_until_next_hour w s =
     (let now = datetime_now w (tick s);
          next_hour = ((now + timedelta_hours 1) div timedelta_hours 1) * timedelta_hours 1;
          wait_time = next_hour - now
      in emit (Sleep wait_time) s)"

fun process_feeds :: "world \<Rightarrow> string list \<Rightarrow> state \<Rightarrow> (exn + unit) \<times> state" where
  "process_feeds w [] s = (Inr (), s)"
| "process_feeds w (feed_url # urls) s =
     (case process_rss_feed w feed_url s of
        (Inl x, s1) \<Rightarrow> (Inl x, s1)
      | (Inr u, s1) \<Rightarrow> process_feeds w urls s1)"

text \<open>The \<^verbatim>\<open>try\<close> body of one pass of \<^verbatim>\<open>while True\<close> in \<^verbatim>\<open>main\<close>.\<close>

definition cycle_body :: "world \<Rightarrow> state \<Rightarrow> (exn + unit) \<times> state" where
  "cycle_body w s =
     (case process_feeds w (RSS_FEEDS w) (emit CycleStart s) of
        (Inl x, s1) \<Rightarrow> (Inl x, s1)
      | (Inr u, s1) \<Rightarrow>
          (case cleanup_old_articles w s1 of
             (Inl x, s2) \<Rightarrow> (Inl x, s2)
           | (Inr u, s2) \<Rightarrow> (Inr (), wait_until_next_hour w s2)))"

text \<open>One pass with its \<^verbatim>\<open>except Exception\<close>, which logs and lets the loop go on.\<close>

definition cycle :: "world \<Rightarrow> state \<Rightarrow> state" where
  "cycle w s =
     (case cycle_body w s of
        (Inl x, s1) \<Rightarrow> emit (MainLoopError x) s1
      | (Inr u, s1) \<Rightarrow> s1)"

text \<open>
  \<^verbatim>\<open>main\<close> never returns; \<open>main n\<close> is the state after the first wait and \<open>n\<close> passes of
  the loop.
\<close>

fun main_loop :: "nat \<Rightarrow> world \<Rightarrow> state \<Rightarrow> state" where
  "main_loop 0 w s = s"
| "main_loop (Suc n) w s = main_loop n w (cycle w s)"

definition main :: "nat \<Rightarrow> world \<Rightarrow> state \<Rightarrow> state" where
  "main n w s = main_loop n w (wait_until_next_hour w s)"

section \<open>Traces\<close>

text \<open>What a run from \<open>s\<close> to \<open>s'\<close> added to the log.\<close>

definition new_events :: "state \<Rightarrow> state \<Rightarrow> event list" where
  "new_events s s' = drop (length (log s)) (log s')"

text \<open>The events of the publisher and of the insert that follows it.\<close>

fun publishing :: "event \<Rightarrow> bool" where
  "publishing (SendPhoto u p) = True"
| "publishing (SendMessage p) = True"
| "publishing (Delivered r) = True"
| "publishing (Sleep n) = True"
| "publishing (DbInsert l) = True"
| "publishing ev = False"

text \<open>
  A run from \<open>s\<close> to \<open>s'\<close> that left the store alone and neither sent, slept nor
  inserted.
\<close>

definition before_publish :: "state \<Rightarrow> state \<Rightarrow> bool" where
  "before_publish s s' =
     (store s' = store s \<and> take (length (log s)) (log s') = log s \<and>
      list_all (\<lambda>ev. \<not> publishing ev) (new_events s s'))"

text \<open>
  The specification's affirmative token: \<open>yes\<close> in any mix of cases, with white space
  around it and nothing else.
\<close>

definition affirmative :: "string \<Rightarrow> bool" where
  "affirmative reply =
     (\<exists>pre post a b c. reply = pre @ [a, b, c] @ post \<and> list_all isspace pre \<and>
        list_all isspace post \<and> a \<in> {CHR ''y'', CHR ''Y''} \<and> b \<in> {CHR ''e'', CHR ''E''} \<and>
        c \<in> {CHR ''s'', CHR ''S''})"

section \<open>Scenarios\<close>

text \<open>
  Concrete worlds and states for the instances below.  A run of \<open>process_entry\<close> from
  \<open>s_init\<close> asks the novelty question at moment 2, the relevance question at moment 6
  and for the summary at moment 8.
\<close>

definition s_init :: state where
  "s_init = \<lparr>store = [], tick = 0, log = []\<rparr>"

definition e_a1 :: entry where
  "e_a1 = \<lparr>entry_link = Some ''https://a/1'', entry_title = Some ''X launches Y''\<rparr>"

text \<open>Everything works: the title is new, the article is relevant, the page has no image.\<close>

definition w_ok :: world where
  "w_ok = \<lparr>RSS_FEEDS = [''https://feed''], CHANNEL_ID = Some ''-100123'',
     filter_prompt = (\<lambda>t. Some (''Relevant? '' @ t)),
     summary_prompt = (\<lambda>t l. Some (''Summarize '' @ t @ '' '' @ l)),
     feed_entries = (\<lambda>_ _. [e_a1]),
     db_fault = (\<lambda>_. False),
     chat_completion = (\<lambda>t _. if t = 2 then ChatContent (Some ''No'')
                              else if t = 6 then ChatContent (Some '' Yes '')
                              else ChatContent (Some ''X has launched Y.'')),
     requests_get = (\<lambda>_ _. Some ''<html>X launched Y</html>''),
     soup_text = (\<lambda>_ _. ParsedLines [''  X launched Y '', '' '']),
     soup_og_image = (\<lambda>_ _. Some None),
     image_get = (\<lambda>_ _. None),
     send_photo = (\<lambda>_ _ _. None),
     send_message = (\<lambda>_ _. Some 42),
     utc_now = (\<lambda>t. 1700000000000000),
     tz_offset = 0\<rparr>"

text \<open>The messaging service answers the second attempt (moment 2) only.\<close>

definition w_flaky :: world where
  "w_flaky = w_ok\<lparr>send_message := (\<lambda>t _. if t = 2 then Some 42 else None)\<rparr>"

text \<open>The service is down for the novelty question.\<close>

definition w_novelty_down :: world where
  "w_novelty_down =
     w_ok\<lparr>chat_completion := (\<lambda>t _. if t = 2 then ChatRaises
                                     else if t = 6 then ChatContent (Some '' Yes '')
                                     else ChatContent (Some ''X has launched Y.''))\<rparr>"

text \<open>The title is judged too similar.\<close>

definition w_similar :: world where
  "w_similar = w_ok\<lparr>chat_completion := (\<lambda>_ _. ChatContent (Some ''Yes''))\<rparr>"

text \<open>The extraction of the page's text times out.\<close>

definition w_timeout :: world where
  "w_timeout = w_ok\<lparr>soup_text := (\<lambda>_ _. ParseTimeout)\<rparr>"

text \<open>The relevance question gets an answer that is not the token.\<close>

definition w_rejected :: world where
  "w_rejected =
     w_ok\<lparr>chat_completion := (\<lambda>t _. if t = 2 then ChatContent (Some ''No'')
                                     else ChatContent (Some ''Yes, it is.''))\<rparr>"

text \<open>The messaging service is down.\<close>

definition w_telegram_down :: world where
  "w_telegram_down = w_ok\<lparr>send_message := (\<lambda>_ _. None)\<rparr>"

text \<open>The page names a good image, and no photo can be sent.\<close>

definition w_photo_down :: world where
  "w_photo_down =
     w_ok\<lparr>soup_og_image := (\<lambda>_ _. Some (Some ''https://a/i.png'')),
          image_get := (\<lambda>_ _. Some \<lparr>status_code = 200, content_type = ''image/png'',
                                     image_size = Some (640, 480)\<rparr>)\<rparr>"

text \<open>The database fails at moment 12, the insert of the run from \<open>s_init\<close>.\<close>

definition w_insert_fails :: world where
  "w_insert_fails = w_ok\<lparr>db_fault := (\<lambda>t. t = 12)\<rparr>"

text \<open>
  The cycle after that run (it ends at moment 14): the database works again, and the
  questions of the run from moment 14 are asked at the moments 16, 20 and 22.
\<close>

definition w_next_cycle :: world where
  "w_next_cycle =
     w_ok\<lparr>chat_completion := (\<lambda>t _. if t = 16 then ChatContent (Some ''No'')
                                     else if t = 20 then ChatContent (Some '' Yes '')
                                     else ChatContent (Some ''X has launched Y.''))\<rparr>"

text \<open>The database fails whenever it is used.\<close>

definition w_locked :: world where
  "w_locked = w_ok\<lparr>db_fault := (\<lambda>_. True)\<rparr>"

text \<open>A store with one record, written at 2023-11-14 22:13:20 UTC.\<close>

definition article_a1 :: article where
  "article_a1 =
     \<lparr>rowid = 1, link = ''https://a/1'', title = ''X launches Y'', keywords_text = ''X launched Y'',
      telegram_link = Some ''https://t.me/100123/42'', datetime = 1700000000000000\<rparr>"

definition s_one :: state where
  "s_one = \<lparr>store = [article_a1], tick = 0, log = []\<rparr>"

text \<open>
  A host three hours east of UTC, six days and twenty-two hours after that record was
  written.
\<close>

definition w_east :: world where
  "w_east =
     w_ok\<lparr>utc_now := (\<lambda>t. 1700000000000000 + timedelta_days 6 + timedelta_hours 22),
          tz_offset := timedelta_hours 3\<rparr>"

section \<open>Basic facts\<close>

lemma store_emit [simp]: "store (emit e s) = store s"
  and tick_emit [simp]: "tick (emit e s) = Suc (tick s)"
  and log_emit [simp]: "log (emit e s) = log s @ [e]"
  by (simp_all add: emit_def)

section \<open>Strings\<close>

lemma of_char_lower_char:
  "(of_char (lower_char c) :: nat) =
     (if (65 \<le> (of_char c :: nat) \<and> (of_char c :: nat) \<le> 90) \<or>
         (192 \<le> (of_char c :: nat) \<and> (of_char c :: nat) \<le> 222 \<and> (of_char c :: nat) \<noteq> 215)
      then of_char c + 32 else of_char c)"
  by (auto simp add: lower_char_def Let_def)

lemma lower_char_letter:
  assumes "97 \<le> k" "k \<le> 122"
  shows "(of_char (lower_char c) :: nat) = k \<longleftrightarrow> (of_char c :: nat) = k \<or> (of_char c :: nat) = k - 32"
  unfolding of_char_lower_char using assms by auto

lemma lower_char_y: "lower_char c = CHR ''y'' \<longleftrightarrow> c = CHR ''y'' \<or> c = CHR ''Y''"
proof -
  have "lower_char c = CHR ''y'' \<longleftrightarrow> (of_char (lower_char c) :: nat) = of_char (CHR ''y'')"
    by (simp only: of_char_eq_iff)
  also have "\<dots> \<longleftrightarrow> (of_char c :: nat) = of_char (CHR ''y'') \<or> (of_char c :: nat) = of_char (CHR ''Y'')"
    using lower_char_letter [of 121 c] by simp
  also have "\<dots> \<longleftrightarrow> c = CHR ''y'' \<or> c = CHR ''Y''"
    by (simp only: of_char_eq_iff)
  finally show ?thesis .
qed

lemma lower_char_e: "lower_char c = CHR ''e'' \<longleftrightarrow> c = CHR ''e'' \<or> c = CHR ''E''"
proof -
  have "lower_char c = CHR ''e'' \<longleftrightarrow> (of_char (lower_char c) :: nat) = of_char (CHR ''e'')"
    by (simp only: of_char_eq_iff)
  also have "\<dots> \<longleftrightarrow> (of_char c :: nat) = of_char (CHR ''e'') \<or> (of_char c :: nat) = of_char (CHR ''E'')"
    using lower_char_letter [of 101 c] by simp
  also have "\<dots> \<longleftrightarrow> c = CHR ''e'' \<or> c = CHR ''E''"
    by (simp only: of_char_eq_iff)
  finally show ?thesis .
qed

lemma lower_char_s: "lower_char c = CHR ''s'' \<longleftrightarrow> c = CHR ''s'' \<or> c = CHR ''S''"
proof -
  have "lower_char c = CHR ''s'' \<longleftrightarrow> (of_char (lower_char c) :: nat) = of_char (CHR ''s'')"
    by (simp only: of_char_eq_iff)
  also have "\<dots> \<longleftrightarrow> (of_char c :: nat) = of_char (CHR ''s'') \<or> (of_char c :: nat) = of_char (CHR ''S'')"
    using lower_char_letter [of 115 c] by simp
  also have "\<dots> \<longleftrightarrow> c = CHR ''s'' \<or> c = CHR ''S''"
    by (simp only: of_char_eq_iff)
  finally show ?thesis .
qed

lemma lower_char_idem: "lower_char (lower_char c) = lower_char c"
proof -
  have "(of_char (lower_char (lower_char c)) :: nat) = of_char (lower_char c)"
    unfolding of_char_lower_char [of "lower_char c"] unfolding of_char_lower_char [of c]
    by auto
  then show ?thesis by (simp only: of_char_eq_iff)
qed

lemma py_lower_idem: "py_lower (py_lower s) = py_lower s"
  by (simp add: py_lower_def lower_char_idem)

lemma py_lower_yes:
  "py_lower s = ''yes'' \<longleftrightarrow>
     (\<exists>a b c. s = [a, b, c] \<and> a \<in> {CHR ''y'', CHR ''Y''} \<and> b \<in> {CHR ''e'', CHR ''E''} \<and>
        c \<in> {CHR ''s'', CHR ''S''})"
proof
  assume h: "py_lower s = ''yes''"
  then have "length s = 3" by (metis length_map py_lower_def length_Cons list.size(3) numeral_3_eq_3)
  then obtain a b c where s: "s = [a, b, c]"
    by (metis (no_types) length_0_conv length_Suc_conv numeral_3_eq_3)
  with h show "\<exists>a b c. s = [a, b, c] \<and> a \<in> {CHR ''y'', CHR ''Y''} \<and> b \<in> {CHR ''e'', CHR ''E''} \<and>
        c \<in> {CHR ''s'', CHR ''S''}"
    by (simp add: py_lower_def lower_char_y lower_char_e lower_char_s)
next
  assume "\<exists>a b c. s = [a, b, c] \<and> a \<in> {CHR ''y'', CHR ''Y''} \<and> b \<in> {CHR ''e'', CHR ''E''} \<and>
        c \<in> {CHR ''s'', CHR ''S''}"
  then show "py_lower s = ''yes''"
    by (auto simp add: py_lower_def lower_char_y lower_char_e lower_char_s)
qed

lemma py_strip_decompose:
  "\<exists>pre post. s = pre @ py_strip s @ post \<and> list_all isspace pre \<and> list_all isspace post"
proof -
  let ?d = "dropWhile isspace s"
  have 1: "s = takeWhile isspace s @ ?d" by simp
  have "rev (takeWhile isspace (rev ?d) @ dropWhile isspace (rev ?d)) = ?d"
    by (simp only: takeWhile_dropWhile_id rev_rev_ident)
  then have 2: "?d = py_strip s @ rev (takeWhile isspace (rev ?d))"
    by (simp only: rev_append py_strip_def)
  have 3: "list_all isspace (takeWhile isspace s)"
    by (simp add: list_all_iff) (meson set_takeWhileD)
  have 4: "list_all isspace (rev (takeWhile isspace (rev ?d)))"
    by (simp add: list_all_iff) (meson set_takeWhileD)
  from 1 2 have "s = takeWhile isspace s @ py_strip s @ rev (takeWhile isspace (rev ?d))" by simp
  with 3 4 show ?thesis by blast
qed

lemma py_strip_core:
  assumes "list_all isspace pre" "list_all isspace post" "core \<noteq> []"
    "\<not> isspace (hd core)" "\<not> isspace (last core)"
  shows "py_strip (pre @ core @ post) = core"
proof -
  have a: "dropWhile isspace (pre @ core @ post) = core @ post"
    using assms by (cases core) (auto simp add: dropWhile_append list_all_iff)
  have b: "dropWhile isspace (rev post @ rev core) = rev core"
    using assms by (cases "rev core") (auto simp add: dropWhile_append list_all_iff last_rev hd_rev)
  show ?thesis by (simp add: py_strip_def a b)
qed

lemma strip_lower_yes: "py_lower (py_strip reply) = ''yes'' \<longleftrightarrow> affirmative reply"
proof
  assume "py_lower (py_strip reply) = ''yes''"
  then obtain a b c where abc: "py_strip reply = [a, b, c]" "a \<in> {CHR ''y'', CHR ''Y''}"
      "b \<in> {CHR ''e'', CHR ''E''}" "c \<in> {CHR ''s'', CHR ''S''}"
    unfolding py_lower_yes by blast
  obtain pre post where "reply = pre @ py_strip reply @ post" "list_all isspace pre" "list_all isspace post"
    using py_strip_decompose by blast
  with abc show "affirmative reply" unfolding affirmative_def by metis
next
  assume "affirmative reply"
  then obtain pre post a b c where h: "reply = pre @ [a, b, c] @ post" "list_all isspace pre"
       "list_all isspace post" "a \<in> {CHR ''y'', CHR ''Y''}" "b \<in> {CHR ''e'', CHR ''E''}"
        "c \<in> {CHR ''s'', CHR ''S''}"
    unfolding affirmative_def by blast
  have "\<not> isspace a" "\<not> isspace c" using h(4,6) by (auto simp add: isspace_def)
  then have "py_strip reply = [a, b, c]"
    unfolding h(1) using h(2,3) by (intro py_strip_core) simp_all
  then show "py_lower (py_strip reply) = ''yes''"
    unfolding py_lower_yes using h by blast
qed

section \<open>Classifiers and generator: results\<close>

lemma is_title_similar_result:
  "is_title_similar_with_chatgpt w new_title titles s =
     ((case chat_completion w (Suc (tick s)) (title_prompt new_title titles) of
         ChatRaises \<Rightarrow> None
       | ChatContent None \<Rightarrow> None
       | ChatContent (Some c) \<Rightarrow> Some (affirmative c)),
      emit (OpenAI (title_prompt new_title titles)) (emit (TitleSimilar new_title) s))"
  by (simp add: is_title_similar_with_chatgpt_def Let_def strip_lower_yes
      split: chat_result.splits option.splits)

lemma filter_article_result:
  "filter_prompt w (take 3000 cleaned_text) = Some prompt \<Longrightarrow>
   filter_article w cleaned_text lnk s =
     ((case chat_completion w (Suc (tick s)) prompt of
         ChatRaises \<Rightarrow> Inr None
       | ChatContent None \<Rightarrow> Inr None
       | ChatContent (Some c) \<Rightarrow> Inr (Some (affirmative c))),
      emit (OpenAI prompt) (emit (FilterArticle cleaned_text) s))"
  by (simp add: filter_article_def Let_def strip_lower_yes py_lower_idem
      split: chat_result.splits option.splits)

lemma filter_article_log:
  "filter_article w cleaned_text lnk s = (passed, s5) \<Longrightarrow>
   \<exists>evs. log s5 = log s @ FilterArticle cleaned_text # evs"
  by (auto simp add: filter_article_def Let_def split: chat_result.splits option.splits)

lemma generate_content_blank:
  "py_strip cleaned_text = [] \<Longrightarrow>
   generate_content w cleaned_text lnk s = (Inr None, emit (GenerateContent cleaned_text) s)"
  by (simp add: generate_content_def)

lemma extract_main_image_truthy:
  "extract_main_image w html s = (Some u, s1) \<Longrightarrow> u \<noteq> []"
  by (auto simp add: extract_main_image_def Let_def split: option.splits if_splits)

section \<open>Publisher: the three attempts\<close>

lemma delivery_nonempty: "delivery w post photo_url t = Some r \<Longrightarrow> r \<noteq> []"
  by (auto simp add: delivery_def telegram_message_link_def split: option.splits if_splits)

lemma attempt_fail:
  "delivery w post photo_url (tick s) = None \<Longrightarrow>
   attempt w post photo_url s =
     (None, s\<lparr>tick := tick s + 2, log := log s @ [send_event post photo_url, Sleep (seconds 5)]\<rparr>)"
  by (simp add: attempt_def emit_def)

lemma attempt_ok:
  "delivery w post photo_url (tick s) = Some r \<Longrightarrow>
   attempt w post photo_url s =
     (Some r, s\<lparr>tick := tick s + 2, log := log s @ [send_event post photo_url, Delivered r]\<rparr>)"
  by (simp add: attempt_def emit_def)

lemma attempts_all_fail:
  "\<forall>i<n. delivery w post photo_url (tick s + 2 * i) = None \<Longrightarrow>
   attempts n w post photo_url s =
     (None, s\<lparr>tick := tick s + 2 * n,
              log := log s @ concat (replicate n [send_event post photo_url, Sleep (seconds 5)])\<rparr>)"
proof (induction n arbitrary: s)
  case 0
  show ?case by simp
next
  case (Suc n)
  let ?s1 = "s\<lparr>tick := tick s + 2, log := log s @ [send_event post photo_url, Sleep (seconds 5)]\<rparr>"
  from Suc.prems have d0: "delivery w post photo_url (tick s) = None"
    by (metis add.right_neutral mult_0_right zero_less_Suc)
  have "\<forall>i<n. delivery w post photo_url (tick ?s1 + 2 * i) = None"
  proof (intro allI impI)
    fix i assume "i < n"
    then have "delivery w post photo_url (tick s + 2 * Suc i) = None" using Suc.prems by blast
    then show "delivery w post photo_url (tick ?s1 + 2 * i) = None" by (simp add: add.assoc)
  qed
  then have "attempts n w post photo_url ?s1 =
     (None, ?s1\<lparr>tick := tick ?s1 + 2 * n,
              log := log ?s1 @ concat (replicate n [send_event post photo_url, Sleep (seconds 5)])\<rparr>)"
    by (rule Suc.IH)
  then show ?case by (simp add: attempt_fail [OF d0])
qed

lemma attempts_success_at:
  "k < n \<Longrightarrow> \<forall>i<k. delivery w post photo_url (tick s + 2 * i) = None \<Longrightarrow>
   delivery w post photo_url (tick s + 2 * k) = Some r \<Longrightarrow>
   attempts n w post photo_url s =
     (Some r, s\<lparr>tick := tick s + 2 * k + 2,
                log := log s @ concat (replicate k [send_event post photo_url, Sleep (seconds 5)]) @
                       [send_event post photo_url, Delivered r]\<rparr>)"
proof (induction k arbitrary: s n)
  case 0
  then obtain m where n: "n = Suc m" by (cases n) auto
  from 0 have "delivery w post photo_url (tick s) = Some r" by simp
  then show ?case by (simp add: n attempt_ok)
next
  case (Suc k)
  then obtain m where n: "n = Suc m" and km: "k < m" by (cases n) auto
  let ?s1 = "s\<lparr>tick := tick s + 2, log := log s @ [send_event post photo_url, Sleep (seconds 5)]\<rparr>"
  from Suc.prems(2) have d0: "delivery w post photo_url (tick s) = None"
    by (metis add.right_neutral mult_0_right zero_less_Suc)
  have fails: "\<forall>i<k. delivery w post photo_url (tick ?s1 + 2 * i) = None"
  proof (intro allI impI)
    fix i assume "i < k"
    then have "delivery w post photo_url (tick s + 2 * Suc i) = None" using Suc.prems(2) by blast
    then show "delivery w post photo_url (tick ?s1 + 2 * i) = None" by (simp add: add.assoc)
  qed
  have ok: "delivery w post photo_url (tick ?s1 + 2 * k) = Some r"
    using Suc.prems(3) by (simp add: add.assoc)
  have "attempts m w post photo_url ?s1 =
     (Some r, ?s1\<lparr>tick := tick ?s1 + 2 * k + 2,
                log := log ?s1 @ concat (replicate k [send_event post photo_url, Sleep (seconds 5)]) @
                       [send_event post photo_url, Delivered r]\<rparr>)"
    by (rule Suc.IH [OF km fails ok])
  then show ?case by (simp add: n attempt_fail [OF d0])
qed

lemma attempts_shape:
  assumes "attempts n w post photo_url s = (tlink, s')"
  shows "store s' = store s \<and>
     ((tlink = None \<and>
        log s' = log s @ concat (replicate n [send_event post photo_url, Sleep (seconds 5)])) \<or>
      (\<exists>k r. k < n \<and> tlink = Some r \<and> r \<noteq> [] \<and>
        log s' = log s @ concat (replicate k [send_event post photo_url, Sleep (seconds 5)]) @
                 [send_event post photo_url, Delivered r]))"
proof (cases "\<forall>i<n. delivery w post photo_url (tick s + 2 * i) = None")
  case True
  from attempts_all_fail [OF True] assms show ?thesis by auto
next
  case False
  define k where "k = (LEAST i. delivery w post photo_url (tick s + 2 * i) \<noteq> None)"
  from False obtain i where i: "i < n" "delivery w post photo_url (tick s + 2 * i) \<noteq> None" by blast
  have kn: "k < n" unfolding k_def using i by (meson Least_le le_less_trans)
  have "delivery w post photo_url (tick s + 2 * k) \<noteq> None"
    unfolding k_def using i(2) by (rule LeastI)
  then obtain r where r: "delivery w post photo_url (tick s + 2 * k) = Some r" by blast
  have before: "\<forall>i<k. delivery w post photo_url (tick s + 2 * i) = None"
    unfolding k_def using not_less_Least by blast
  from attempts_success_at [OF kn before r] assms delivery_nonempty [OF r] kn
  show ?thesis by auto
qed

section \<open>History store: insert, lookup, eviction\<close>

lemma save_existing:
  "lnk \<in> set (map link (store s)) \<Longrightarrow>
   save_article_to_db w lnk ttl kws tlink s =
     ((if db_fault w (tick s) then Inl OperationalError else Inr ()), emit (DbInsert lnk) s)"
  by (simp add: save_article_to_db_def)

lemma save_new:
  "\<not> db_fault w (tick s) \<Longrightarrow> lnk \<notin> set (map link (store s)) \<Longrightarrow>
   save_article_to_db w lnk ttl kws tlink s =
     (Inr (), emit (DbInsert lnk)
        (s\<lparr>store := store s @
            [\<lparr>rowid = next_rowid (store s), link = lnk, title = ttl, keywords_text = kws,
              telegram_link = tlink, datetime = CURRENT_TIMESTAMP w (tick s)\<rparr>]\<rparr>))"
  by (simp add: save_article_to_db_def)

lemma save_fresh:
  assumes "lnk \<notin> set (map link (store s))"
    and "save_article_to_db w lnk ttl kws tlink s = (r, s')"
  shows "log s' = log s @ [DbInsert lnk] \<and>
     ((r = Inl OperationalError \<and> store s' = store s) \<or>
      (r = Inr () \<and>
       (\<exists>a. store s' = store s @ [a] \<and> link a = lnk \<and> title a = ttl \<and>
            keywords_text a = kws \<and> telegram_link a = tlink)))"
  using assms by (auto simp add: save_article_to_db_def split: if_splits)

lemma save_fault:
  "db_fault w (tick s) \<Longrightarrow>
   save_article_to_db w lnk ttl kws tlink s = (Inl OperationalError, emit (DbInsert lnk) s)"
  by (simp add: save_article_to_db_def)

lemma count_distinct_link:
  "distinct (map link xs) \<Longrightarrow> lnk \<in> set (map link xs) \<Longrightarrow> length (filter (\<lambda>a. link a = lnk) xs) = 1"
proof (induction xs)
  case Nil
  then show ?case by simp
next
  case (Cons a xs)
  show ?case
  proof (cases "link a = lnk")
    case True
    with Cons.prems have "lnk \<notin> set (map link xs)" by auto
    then have "filter (\<lambda>a. link a = lnk) xs = []" by (auto simp add: filter_empty_conv)
    with True show ?thesis by simp
  next
    case False
    with Cons show ?thesis by auto
  qed
qed

lemma save_twice:
  assumes "distinct (map link (store s))" "\<not> db_fault w (tick s)" "\<not> db_fault w (Suc (tick s))"
  shows "(case save_article_to_db w lnk ttl kws tlink s of (r1, s1) \<Rightarrow>
          case save_article_to_db w lnk ttl' kws' tlink' s1 of (r2, s2) \<Rightarrow>
            r1 = Inr () \<and> r2 = Inr () \<and> store s2 = store s1 \<and>
            length (filter (\<lambda>a. link a = lnk) (store s2)) = 1)"
proof (cases "lnk \<in> set (map link (store s))")
  case True
  with assms show ?thesis by (simp add: save_existing count_distinct_link)
next
  case False
  then have "filter (\<lambda>a. link a = lnk) (store s) = []" by (auto simp add: filter_empty_conv)
  with False assms show ?thesis by (simp add: save_new save_existing)
qed

lemma save_distinct:
  "distinct (map link (store s)) \<Longrightarrow> distinct (map link (store (snd (save_article_to_db w lnk ttl kws tlink s))))"
  by (simp add: save_article_to_db_def)

lemma cleanup_distinct:
  "distinct (map link (store s)) \<Longrightarrow> distinct (map link (store (snd (cleanup_old_articles w s))))"
  by (simp add: cleanup_old_articles_def Let_def distinct_map_filter)

lemma cleanup_removes:
  "\<not> db_fault w (tick s) \<Longrightarrow>
   store (snd (cleanup_old_articles w s)) =
     filter (\<lambda>a. utc_now w (tick s) + tz_offset w - timedelta_days 7 \<le> datetime a) (store s)"
  by (simp add: cleanup_old_articles_def Let_def datetime_now_def not_less)

lemma already_exists_fresh:
  "lnk \<notin> set (map link (store s)) \<Longrightarrow> \<not> db_fault w (tick s) \<Longrightarrow>
   fst (already_exists w lnk s) = Inr False"
  by (simp add: already_exists_def)

section \<open>Traces of the orchestrator\<close>

lemma new_events_append: "log s' = log s @ evs \<Longrightarrow> new_events s s' = evs"
  by (simp add: new_events_def)

lemma not_publishing_set:
  "list_all (\<lambda>ev. \<not> publishing ev) pre \<Longrightarrow> ev \<in> set pre \<Longrightarrow> \<not> publishing ev"
  by (simp add: list_all_iff)

lemma set_retries:
  "set (concat (replicate k [a, b])) \<subseteq> {a, b}"
  by (induction k) auto

lemma filter_retries:
  "a \<noteq> b \<Longrightarrow> length (filter (\<lambda>ev. ev = a) (concat (replicate k [a, b]))) = k"
  by (induction k) auto

lemma filter_not_publishing:
  "list_all (\<lambda>ev. \<not> publishing ev) pre \<Longrightarrow> publishing a \<Longrightarrow> filter (\<lambda>ev. ev = a) pre = []"
  by (induction pre) auto

lemma before_publishI:
  "store s' = store s \<Longrightarrow> log s' = log s @ evs \<Longrightarrow> list_all (\<lambda>ev. \<not> publishing ev) evs \<Longrightarrow>
   before_publish s s'"
  by (simp add: before_publish_def new_events_def)

lemma before_publishD:
  "before_publish s s' \<Longrightarrow>
   store s' = store s \<and> log s' = log s @ new_events s s' \<and>
   list_all (\<lambda>ev. \<not> publishing ev) (new_events s s')"
  unfolding before_publish_def new_events_def
  by (metis append_take_drop_id)

lemma before_publish_refl [simp]: "before_publish s s"
  by (simp add: before_publish_def new_events_def)

lemma before_publish_trans:
  "before_publish s s1 \<Longrightarrow> before_publish s1 s2 \<Longrightarrow> before_publish s s2"
proof -
  assume a: "before_publish s s1" and b: "before_publish s1 s2"
  from before_publishD [OF a] before_publishD [OF b]
  have "store s2 = store s" "log s2 = log s @ (new_events s s1 @ new_events s1 s2)"
    "list_all (\<lambda>ev. \<not> publishing ev) (new_events s s1 @ new_events s1 s2)"
    by simp_all
  then show ?thesis by (rule before_publishI)
qed

lemma before_publish_emit:
  "\<not> publishing ev \<Longrightarrow> before_publish s s1 \<Longrightarrow> before_publish s (emit ev s1)"
  by (rule before_publish_trans [of s s1]) (auto intro: before_publishI [where evs = "[ev]"])

lemma already_exists_quiet:
  "already_exists w lnk s = (r, s1) \<Longrightarrow> before_publish s s1"
  by (auto simp add: already_exists_def split: if_splits intro!: before_publish_emit)

lemma is_title_similar_quiet:
  "is_title_similar_with_chatgpt w t titles s = (r, s1) \<Longrightarrow> before_publish s s1"
  by (auto simp add: is_title_similar_with_chatgpt_def Let_def
      split: chat_result.splits option.splits intro!: before_publish_emit)

lemma clean_html_quiet:
  "clean_html w html s = (r, s1) \<Longrightarrow> before_publish s s1"
  by (auto simp add: clean_html_def split: parse_result.splits intro!: before_publish_emit)

lemma filter_article_quiet:
  "filter_article w text lnk s = (r, s1) \<Longrightarrow> before_publish s s1"
  by (auto simp add: filter_article_def Let_def
      split: chat_result.splits option.splits intro!: before_publish_emit)

lemma generate_content_quiet:
  "generate_content w text lnk s = (r, s1) \<Longrightarrow> before_publish s s1"
  by (auto simp add: generate_content_def Let_def
      split: chat_result.splits option.splits if_splits intro!: before_publish_emit)

lemma extract_main_image_quiet:
  "extract_main_image w html s = (r, s1) \<Longrightarrow> before_publish s s1"
  by (auto simp add: extract_main_image_def Let_def
      split: option.splits if_splits intro!: before_publish_emit)

lemma article_processing_shape:
  assumes run: "article_processing w lnk new_title s = (r, s')"
  shows "before_publish (emit (HttpGet lnk) s) s' \<or>
     (\<exists>kws post photo_url s7. before_publish (emit (HttpGet lnk) s) s7 \<and>
         (\<exists>tlink s8. publish_to_telegram w post photo_url s7 = (tlink, s8) \<and>
            (r, s') = (if truthy_str tlink then save_article_to_db w lnk new_title kws tlink s8
                       else (Inr (), s8))))"
proof (cases "requests_get w (tick s) lnk")
  case None
  with run have "s' = emit (HttpGet lnk) s" by (simp add: article_processing_def)
  then show ?thesis by simp
next
  case G: (Some html)
  let ?s3 = "emit (HttpGet lnk) s"
  obtain cleaned_text s4 where ch: "clean_html w html ?s3 = (cleaned_text, s4)"
    by fastforce
  obtain passed s5 where fa: "filter_article w cleaned_text lnk s4 = (passed, s5)" by fastforce
  obtain post s6 where gc: "generate_content w cleaned_text lnk s5 = (post, s6)" by fastforce
  obtain photo_url s7 where im: "extract_main_image w html s6 = (photo_url, s7)" by fastforce
  have q4: "before_publish ?s3 s4"
    using ch by (rule clean_html_quiet)
  have q5: "before_publish ?s3 s5"
    using q4 filter_article_quiet [OF fa] by (rule before_publish_trans)
  have q6: "before_publish ?s3 s6"
    using q5 generate_content_quiet [OF gc] by (rule before_publish_trans)
  have q7: "before_publish ?s3 s7"
    using q6 extract_main_image_quiet [OF im] by (rule before_publish_trans)
  show ?thesis
  proof (cases "passed = Inr (Some True)")
    case False
    then have "s' = s5"
      using run G ch fa
      by (cases passed) (auto simp add: article_processing_def truthy_bool_def split: option.splits)
    with q5 show ?thesis by blast
  next
    case P: True
    show ?thesis
    proof (cases "\<exists>p. post = Inr (Some p) \<and> p \<noteq> []")
      case False
      then have "s' = s6"
        using run G ch fa P gc
        by (cases post) (auto simp add: article_processing_def truthy_bool_def truthy_str_def
            split: option.splits)
      with q6 show ?thesis by blast
    next
      case True
      then obtain p where p: "post = Inr (Some p)" "p \<noteq> []" by blast
      obtain tlink s8 where pu: "publish_to_telegram w p photo_url s7 = (tlink, s8)" by fastforce
      have "(r, s') = (if truthy_str tlink then save_article_to_db w lnk new_title cleaned_text tlink s8
                 else (Inr (), s8))"
        using run G ch fa P gc p im pu
        by (simp add: article_processing_def truthy_bool_def truthy_str_def)
      with q7 pu show ?thesis by blast
    qed
  qed
qed

lemma article_processing_log:
  assumes run: "article_processing w lnk new_title s = (r, s')"
  shows "\<exists>evs. log s' = log s @ HttpGet lnk # evs"
proof -
  let ?s3 = "emit (HttpGet lnk) s"
  from article_processing_shape [OF run]
  consider (quiet) "before_publish ?s3 s'"
    | (pub) kws post photo_url s7 tlink s8 where "before_publish ?s3 s7"
        "publish_to_telegram w post photo_url s7 = (tlink, s8)"
        "(r, s') = (if truthy_str tlink then save_article_to_db w lnk new_title kws tlink s8
                    else (Inr (), s8))"
    by blast
  then show ?thesis
  proof cases
    case quiet
    from before_publishD [OF quiet] have "log s' = log s @ HttpGet lnk # new_events ?s3 s'"
      by simp
    then show ?thesis by blast
  next
    case pub
    from before_publishD [OF pub(1)] have 7: "log s7 = log s @ HttpGet lnk # new_events ?s3 s7"
      by simp
    from pub(2) have "attempts 3 w post photo_url s7 = (tlink, s8)"
      by (simp add: publish_to_telegram_def)
    from attempts_shape [OF this] obtain evs where 8: "log s8 = log s7 @ evs" by blast
    have "\<exists>tl. log s' = log s8 @ tl"
    proof (cases "truthy_str tlink")
      case True
      with pub(3) show ?thesis
        by (auto simp add: save_article_to_db_def split: if_splits)
    next
      case False
      with pub(3) show ?thesis by simp
    qed
    then obtain tl where "log s' = log s8 @ tl" by blast
    with 7 8 have "log s' = log s @ HttpGet lnk # (new_events ?s3 s7 @ evs @ tl)" by simp
    then show ?thesis by blast
  qed
qed

lemma entry_body_shape:
  assumes run: "entry_body w titles e s = (r, s')"
  shows "before_publish s s' \<or>
     (\<exists>lnk ttl kws post photo_url s7. entry_link e = Some lnk \<and>
         lnk \<notin> set (map link (store s)) \<and> before_publish s s7 \<and>
         (\<exists>tlink s8. publish_to_telegram w post photo_url s7 = (tlink, s8) \<and>
            (r, s') = (if truthy_str tlink then save_article_to_db w lnk ttl kws tlink s8
                       else (Inr (), s8))))"
proof (cases "entry_link e")
  case None
  with run show ?thesis by (simp add: entry_body_def)
next
  case L: (Some lnk)
  show ?thesis
  proof (cases "entry_title e")
    case None
    with run L show ?thesis by (simp add: entry_body_def)
  next
    case T: (Some new_title)
    obtain found s1 where ae: "already_exists w lnk s = (found, s1)" by fastforce
    have q1: "before_publish s s1" using ae by (rule already_exists_quiet)
    obtain similar s2 where ts: "is_title_similar_with_chatgpt w new_title titles s1 = (similar, s2)"
      by fastforce
    have q2: "before_publish s s2"
      using q1 is_title_similar_quiet [OF ts] by (rule before_publish_trans)
    have q3: "before_publish s (emit (HttpGet lnk) s2)"
      using q2 by (simp add: before_publish_emit)
    show ?thesis
    proof (cases "found = Inr False \<and> \<not> truthy_bool similar")
      case False
      then have "s' = s1 \<or> s' = s2"
        using run L T ae ts by (cases found) (auto simp add: entry_body_def split: if_splits)
      with q1 q2 show ?thesis by blast
    next
      case go: True
      with ae have fresh: "lnk \<notin> set (map link (store s))"
        by (auto simp add: already_exists_def split: if_splits)
      from run L T ae ts go have "article_processing w lnk new_title s2 = (r, s')"
        by (simp add: entry_body_def)
      from article_processing_shape [OF this] q3 L fresh show ?thesis
        by (meson before_publish_trans)
    qed
  qed
qed

lemma entry_body_trace:
  assumes run: "entry_body w titles e s = (r, s')"
  shows "\<exists>pre. list_all (\<lambda>ev. \<not> publishing ev) pre \<and>
     ((log s' = log s @ pre \<and> store s' = store s) \<or>
      (\<exists>post photo_url. r = Inr () \<and> store s' = store s \<and>
         log s' = log s @ pre @ concat (replicate 3 [send_event post photo_url, Sleep (seconds 5)])) \<or>
      (\<exists>post photo_url k ref lnk. k < 3 \<and> ref \<noteq> [] \<and> entry_link e = Some lnk \<and>
         lnk \<notin> set (map link (store s)) \<and>
         log s' = log s @ pre @ concat (replicate k [send_event post photo_url, Sleep (seconds 5)]) @
                  [send_event post photo_url, Delivered ref, DbInsert lnk] \<and>
         ((r = Inl OperationalError \<and> store s' = store s) \<or>
          (r = Inr () \<and>
           (\<exists>a. store s' = store s @ [a] \<and> link a = lnk \<and> telegram_link a = Some ref)))))"
proof -
  from entry_body_shape [OF run]
  consider (quiet) "before_publish s s'"
    | (pub) lnk ttl kws post photo_url s7 tlink s8 where
        "entry_link e = Some lnk" "before_publish s s7"
        "publish_to_telegram w post photo_url s7 = (tlink, s8)"
        "(r, s') = (if truthy_str tlink then save_article_to_db w lnk ttl kws tlink s8
                       else (Inr (), s8))"
        "lnk \<notin> set (map link (store s))"
    by blast
  then show ?thesis
  proof cases
    case quiet
    from before_publishD [OF quiet] show ?thesis by blast
  next
    case pub
    from before_publishD [OF pub(2)]
    have s7: "store s7 = store s" "log s7 = log s @ new_events s s7"
      "list_all (\<lambda>ev. \<not> publishing ev) (new_events s s7)" by simp_all
    from pub(3) have "attempts 3 w post photo_url s7 = (tlink, s8)"
      by (simp add: publish_to_telegram_def)
    from attempts_shape [OF this]
    have s8: "store s8 = store s7" and
      alt: "(tlink = None \<and>
        log s8 = log s7 @ concat (replicate 3 [send_event post photo_url, Sleep (seconds 5)])) \<or>
      (\<exists>k r. k < 3 \<and> tlink = Some r \<and> r \<noteq> [] \<and>
        log s8 = log s7 @ concat (replicate k [send_event post photo_url, Sleep (seconds 5)]) @
                 [send_event post photo_url, Delivered r])"
      by simp_all
    from alt show ?thesis
    proof
      assume a: "tlink = None \<and>
        log s8 = log s7 @ concat (replicate 3 [send_event post photo_url, Sleep (seconds 5)])"
      with pub(4) have "r = Inr ()" "s' = s8" by (simp_all add: truthy_str_def)
      with a s7 s8 have "r = Inr () \<and> store s' = store s \<and>
         log s' = log s @ new_events s s7 @
            concat (replicate 3 [send_event post photo_url, Sleep (seconds 5)])"
        by simp
      with s7(3) show ?thesis by blast
    next
      assume "\<exists>k r. k < 3 \<and> tlink = Some r \<and> r \<noteq> [] \<and>
        log s8 = log s7 @ concat (replicate k [send_event post photo_url, Sleep (seconds 5)]) @
                 [send_event post photo_url, Delivered r]"
      then obtain k ref where k: "k < 3" "tlink = Some ref" "ref \<noteq> []"
        "log s8 = log s7 @ concat (replicate k [send_event post photo_url, Sleep (seconds 5)]) @
                 [send_event post photo_url, Delivered ref]"
        by blast
      with pub(4) have sv: "save_article_to_db w lnk ttl kws (Some ref) s8 = (r, s')"
        by (simp add: truthy_str_def)
      have fresh: "lnk \<notin> set (map link (store s8))" using pub(5) s7 s8 by simp
      from save_fresh [OF fresh sv] k(4) s7 s8
      have "log s' = log s @ new_events s s7 @
              concat (replicate k [send_event post photo_url, Sleep (seconds 5)]) @
              [send_event post photo_url, Delivered ref, DbInsert lnk] \<and>
         ((r = Inl OperationalError \<and> store s' = store s) \<or>
          (r = Inr () \<and>
           (\<exists>a. store s' = store s @ [a] \<and> link a = lnk \<and> telegram_link a = Some ref)))"
        by auto
      with k(1,3) pub(1,5) s7(3) show ?thesis by blast
    qed
  qed
qed

lemma process_entry_trace:
  assumes run: "process_entry w titles e s = (r, s')"
  shows "\<exists>pre. list_all (\<lambda>ev. \<not> publishing ev) pre \<and>
     ((log s' = log s @ pre \<and> store s' = store s) \<or>
      (\<exists>post photo_url. r = Inr () \<and> store s' = store s \<and>
         log s' = log s @ pre @ concat (replicate 3 [send_event post photo_url, Sleep (seconds 5)])) \<or>
      (\<exists>post photo_url k ref lnk. k < 3 \<and> ref \<noteq> [] \<and> entry_link e = Some lnk \<and>
         lnk \<notin> set (map link (store s)) \<and> r = Inr () \<and>
         ((store s' = store s \<and>
           log s' = log s @ pre @ concat (replicate k [send_event post photo_url, Sleep (seconds 5)]) @
             [send_event post photo_url, Delivered ref, DbInsert lnk,
              ArticleProcessingError OperationalError]) \<or>
          (log s' = log s @ pre @ concat (replicate k [send_event post photo_url, Sleep (seconds 5)]) @
             [send_event post photo_url, Delivered ref, DbInsert lnk] \<and>
           (\<exists>a. store s' = store s @ [a] \<and> link a = lnk \<and> telegram_link a = Some ref)))))"
proof -
  obtain rb sb where body: "entry_body w titles e s = (rb, sb)" by fastforce
  from entry_body_trace [OF body] obtain pre where pre: "list_all (\<lambda>ev. \<not> publishing ev) pre"
    and alt: "(log sb = log s @ pre \<and> store sb = store s) \<or>
      (\<exists>post photo_url. rb = Inr () \<and> store sb = store s \<and>
         log sb = log s @ pre @ concat (replicate 3 [send_event post photo_url, Sleep (seconds 5)])) \<or>
      (\<exists>post photo_url k ref lnk. k < 3 \<and> ref \<noteq> [] \<and> entry_link e = Some lnk \<and>
         lnk \<notin> set (map link (store s)) \<and>
         log sb = log s @ pre @ concat (replicate k [send_event post photo_url, Sleep (seconds 5)]) @
                  [send_event post photo_url, Delivered ref, DbInsert lnk] \<and>
         ((rb = Inl OperationalError \<and> store sb = store s) \<or>
          (rb = Inr () \<and>
           (\<exists>a. store sb = store s @ [a] \<and> link a = lnk \<and> telegram_link a = Some ref))))"
    by blast
  from alt consider
      (quiet) "log sb = log s @ pre" "store sb = store s"
    | (failed) post photo_url where "rb = Inr ()" "store sb = store s"
         "log sb = log s @ pre @ concat (replicate 3 [send_event post photo_url, Sleep (seconds 5)])"
    | (sent) post photo_url k ref lnk where "k < 3" "ref \<noteq> []" "entry_link e = Some lnk"
         "lnk \<notin> set (map link (store s))"
         "log sb = log s @ pre @ concat (replicate k [send_event post photo_url, Sleep (seconds 5)]) @
                  [send_event post photo_url, Delivered ref, DbInsert lnk]"
         "(rb = Inl OperationalError \<and> store sb = store s) \<or>
          (rb = Inr () \<and>
           (\<exists>a. store sb = store s @ [a] \<and> link a = lnk \<and> telegram_link a = Some ref))"
    by blast
  then show ?thesis
  proof cases
    case quiet
    have "\<exists>tl. list_all (\<lambda>ev. \<not> publishing ev) tl \<and> log s' = log sb @ tl \<and> store s' = store sb"
    proof (cases "s' = sb")
      case True
      then show ?thesis by (intro exI [of _ "[]"]) simp
    next
      case False
      with run body obtain x where "s' = emit (ArticleProcessingError x) sb"
        by (auto simp add: process_entry_def split: sum.splits option.splits)
      then show ?thesis by (intro exI [of _ "[ArticleProcessingError x]"]) simp
    qed
    then obtain tl where "list_all (\<lambda>ev. \<not> publishing ev) tl" "log s' = log sb @ tl" "store s' = store sb"
      by blast
    with quiet pre have "list_all (\<lambda>ev. \<not> publishing ev) (pre @ tl) \<and> log s' = log s @ (pre @ tl) \<and>
       store s' = store s"
      by simp
    then show ?thesis by blast
  next
    case failed
    with run body have "r = Inr ()" "s' = sb" by (simp_all add: process_entry_def)
    with failed pre show ?thesis by blast
  next
    case sent
    from sent(6) show ?thesis
    proof
      assume a: "rb = Inl OperationalError \<and> store sb = store s"
      with run body sent(3) have "r = Inr ()" "s' = emit (ArticleProcessingError OperationalError) sb"
        by (simp_all add: process_entry_def)
      with a sent(5) have "store s' = store s \<and>
           log s' = log s @ pre @ concat (replicate k [send_event post photo_url, Sleep (seconds 5)]) @
             [send_event post photo_url, Delivered ref, DbInsert lnk,
              ArticleProcessingError OperationalError]"
        by simp
      with pre sent(1-4) \<open>r = Inr ()\<close> show ?thesis by blast
    next
      assume a: "rb = Inr () \<and>
           (\<exists>a. store sb = store s @ [a] \<and> link a = lnk \<and> telegram_link a = Some ref)"
      with run body have "r = Inr ()" "s' = sb" by (simp_all add: process_entry_def)
      with a pre sent(1-5) show ?thesis by blast
    qed
  qed
qed

lemma entry_absorbs:
  "entry_link e = Some lnk \<Longrightarrow> entry_body w titles e s = (Inl x, sb) \<Longrightarrow>
   process_entry w titles e s = (Inr (), emit (ArticleProcessingError x) sb)"
  by (simp add: process_entry_def)

lemma entry_body_next:
  assumes "entry_link e = Some lnk" and "entry_title e = Some new_title"
    and "lnk \<notin> set (map link (store s))" and "\<not> db_fault w (tick s)"
  shows "entry_body w titles e s =
     (case is_title_similar_with_chatgpt w new_title titles (emit (DbSelectLink lnk) s) of
        (similar, sn) \<Rightarrow>
          if truthy_bool similar then (Inr (), sn) else article_processing w lnk new_title sn)"
  using assms by (simp add: entry_body_def already_exists_def)

section \<open>Scheduler passes\<close>

lemma cycle_error:
  "cycle_body w s = (Inl x, s1) \<Longrightarrow> cycle w s = emit (MainLoopError x) s1"
  by (simp add: cycle_def)

lemma cycle_body_ends_with_wait:
  assumes "cycle_body w s = (Inr u, s1)"
  shows "cycle w s = s1 \<and> (\<exists>evs n. log s1 = evs @ [Sleep n])"
proof
  from assms show "cycle w s = s1" by (simp add: cycle_def)
  from assms obtain s2 where "s1 = wait_until_next_hour w s2"
    by (auto simp add: cycle_body_def split: prod.splits sum.splits)
  then have "log s1 = log s2 @ [Sleep (((datetime_now w (tick s2) + timedelta_hours 1)
      div timedelta_hours 1) * timedelta_hours 1 - datetime_now w (tick s2))]"
    by (simp add: wait_until_next_hour_def Let_def)
  then show "\<exists>evs n. log s1 = evs @ [Sleep n]" by (intro exI)
qed

section \<open>Runs of the scenarios\<close>

lemmas stage_defs = process_entry_def entry_body_def article_processing_def already_exists_def
  is_title_similar_with_chatgpt_def clean_html_def filter_article_def generate_content_def
  extract_main_image_def publish_to_telegram_def attempt_def delivery_def send_event_def
  telegram_message_link_def save_article_to_db_def truthy_bool_def truthy_str_def
  py_lower_def py_strip_def isspace_def lower_char_def next_rowid_def CURRENT_TIMESTAMP_def
  seconds_def emit_def numeral_3_eq_3

lemmas world_defs = w_ok_def w_flaky_def w_novelty_down_def w_similar_def w_timeout_def
  w_rejected_def w_telegram_down_def w_photo_down_def w_insert_fails_def w_next_cycle_def w_locked_def
  e_a1_def s_init_def article_a1_def

lemma str_nat_42: "str_nat 42 = ''42''"
  by code_simp

lemma run_ok:
  "process_entry w_ok [] e_a1 s_init =
    (Inr (),
     \<lparr>store = [\<lparr>rowid = 1, link = ''https://a/1'', title = ''X launches Y'',
                keywords_text = ''X launched Y'', telegram_link = Some ''https://t.me/100123/42'',
                datetime = 1700000000000000\<rparr>],
      tick = 13,
      log = [DbSelectLink ''https://a/1'', TitleSimilar ''X launches Y'',
             OpenAI (title_prompt ''X launches Y'' []), HttpGet ''https://a/1'',
             CleanHtml ''<html>X launched Y</html>'', FilterArticle ''X launched Y'',
             OpenAI ''Relevant? X launched Y'', GenerateContent ''X launched Y'',
             OpenAI ''Summarize X launched Y https://a/1'', FindOgImage ''<html>X launched Y</html>'',
             SendMessage ''X has launched Y.'', Delivered ''https://t.me/100123/42'',
             DbInsert ''https://a/1'']\<rparr>)"
  by (simp add: stage_defs w_ok_def e_a1_def s_init_def str_nat_42 char_of_eq_iff)

lemma run_novelty_down:
  "process_entry w_novelty_down [] e_a1 s_init =
    (Inr (),
     \<lparr>store = [article_a1], tick = 13,
      log = [DbSelectLink ''https://a/1'', TitleSimilar ''X launches Y'',
             OpenAI (title_prompt ''X launches Y'' []), HttpGet ''https://a/1'',
             CleanHtml ''<html>X launched Y</html>'', FilterArticle ''X launched Y'',
             OpenAI ''Relevant? X launched Y'', GenerateContent ''X launched Y'',
             OpenAI ''Summarize X launched Y https://a/1'', FindOgImage ''<html>X launched Y</html>'',
             SendMessage ''X has launched Y.'', Delivered ''https://t.me/100123/42'',
             DbInsert ''https://a/1'']\<rparr>)"
  by (simp add: stage_defs world_defs str_nat_42 char_of_eq_iff)

lemma run_similar:
  "process_entry w_similar [] e_a1 s_init =
    (Inr (),
     \<lparr>store = [], tick = 3,
      log = [DbSelectLink ''https://a/1'', TitleSimilar ''X launches Y'',
             OpenAI (title_prompt ''X launches Y'' [])]\<rparr>)"
  by (simp add: stage_defs world_defs char_of_eq_iff)

lemma run_timeout:
  "process_entry w_timeout [] e_a1 s_init =
    (Inr (),
     \<lparr>store = [], tick = 8,
      log = [DbSelectLink ''https://a/1'', TitleSimilar ''X launches Y'',
             OpenAI (title_prompt ''X launches Y'' []), HttpGet ''https://a/1'',
             CleanHtml ''<html>X launched Y</html>'', FilterArticle [],
             OpenAI ''Relevant? '', GenerateContent []]\<rparr>)"
  by (simp add: stage_defs world_defs char_of_eq_iff)

lemma run_telegram_down:
  "process_entry w_telegram_down [] e_a1 s_init =
    (Inr (),
     \<lparr>store = [], tick = 16,
      log = [DbSelectLink ''https://a/1'', TitleSimilar ''X launches Y'',
             OpenAI (title_prompt ''X launches Y'' []), HttpGet ''https://a/1'',
             CleanHtml ''<html>X launched Y</html>'', FilterArticle ''X launched Y'',
             OpenAI ''Relevant? X launched Y'', GenerateContent ''X launched Y'',
             OpenAI ''Summarize X launched Y https://a/1'', FindOgImage ''<html>X launched Y</html>'',
             SendMessage ''X has launched Y.'', Sleep 5000000,
             SendMessage ''X has launched Y.'', Sleep 5000000,
             SendMessage ''X has launched Y.'', Sleep 5000000]\<rparr>)"
  by (simp add: stage_defs world_defs char_of_eq_iff)

lemma run_photo_down:
  "process_entry w_photo_down [] e_a1 s_init =
    (Inr (),
     \<lparr>store = [], tick = 17,
      log = [DbSelectLink ''https://a/1'', TitleSimilar ''X launches Y'',
             OpenAI (title_prompt ''X launches Y'' []), HttpGet ''https://a/1'',
             CleanHtml ''<html>X launched Y</html>'', FilterArticle ''X launched Y'',
             OpenAI ''Relevant? X launched Y'', GenerateContent ''X launched Y'',
             OpenAI ''Summarize X launched Y https://a/1'', FindOgImage ''<html>X launched Y</html>'',
             ImageGet ''https://a/i.png'',
             SendPhoto ''https://a/i.png'' ''X has launched Y.'', Sleep 5000000,
             SendPhoto ''https://a/i.png'' ''X has launched Y.'', Sleep 5000000,
             SendPhoto ''https://a/i.png'' ''X has launched Y.'', Sleep 5000000]\<rparr>)"
  by (simp add: stage_defs world_defs char_of_eq_iff)

lemma run_insert_fails:
  "process_entry w_insert_fails [] e_a1 s_init =
    (Inr (),
     \<lparr>store = [], tick = 14,
      log = [DbSelectLink ''https://a/1'', TitleSimilar ''X launches Y'',
             OpenAI (title_prompt ''X launches Y'' []), HttpGet ''https://a/1'',
             CleanHtml ''<html>X launched Y</html>'', FilterArticle ''X launched Y'',
             OpenAI ''Relevant? X launched Y'', GenerateContent ''X launched Y'',
             OpenAI ''Summarize X launched Y https://a/1'', FindOgImage ''<html>X launched Y</html>'',
             SendMessage ''X has launched Y.'', Delivered ''https://t.me/100123/42'',
             DbInsert ''https://a/1'', ArticleProcessingError OperationalError]\<rparr>)"
  by (simp add: stage_defs world_defs str_nat_42 char_of_eq_iff)

lemma run_next_cycle:
  "process_entry w_next_cycle [] e_a1
     \<lparr>store = [], tick = 14,
      log = [DbSelectLink ''https://a/1'', TitleSimilar ''X launches Y'',
             OpenAI (title_prompt ''X launches Y'' []), HttpGet ''https://a/1'',
             CleanHtml ''<html>X launched Y</html>'', FilterArticle ''X launched Y'',
             OpenAI ''Relevant? X launched Y'', GenerateContent ''X launched Y'',
             OpenAI ''Summarize X launched Y https://a/1'', FindOgImage ''<html>X launched Y</html>'',
             SendMessage ''X has launched Y.'', Delivered ''https://t.me/100123/42'',
             DbInsert ''https://a/1'', ArticleProcessingError OperationalError]\<rparr> =
    (Inr (),
     \<lparr>store = [article_a1], tick = 27,
      log = [DbSelectLink ''https://a/1'', TitleSimilar ''X launches Y'',
             OpenAI (title_prompt ''X launches Y'' []), HttpGet ''https://a/1'',
             CleanHtml ''<html>X launched Y</html>'', FilterArticle ''X launched Y'',
             OpenAI ''Relevant? X launched Y'', GenerateContent ''X launched Y'',
             OpenAI ''Summarize X launched Y https://a/1'', FindOgImage ''<html>X launched Y</html>'',
             SendMessage ''X has launched Y.'', Delivered ''https://t.me/100123/42'',
             DbInsert ''https://a/1'', ArticleProcessingError OperationalError,
             DbSelectLink ''https://a/1'', TitleSimilar ''X launches Y'',
             OpenAI (title_prompt ''X launches Y'' []), HttpGet ''https://a/1'',
             CleanHtml ''<html>X launched Y</html>'', FilterArticle ''X launched Y'',
             OpenAI ''Relevant? X launched Y'', GenerateContent ''X launched Y'',
             OpenAI ''Summarize X launched Y https://a/1'', FindOgImage ''<html>X launched Y</html>'',
             SendMessage ''X has launched Y.'', Delivered ''https://t.me/100123/42'',
             DbInsert ''https://a/1'']\<rparr>)"
  by (simp add: stage_defs world_defs str_nat_42 char_of_eq_iff)

section \<open>The claims\<close>

subsection \<open>C1: the novelty check\<close>

text \<open>
  Claim C1, amended.  For an entry whose link is not stored yet: when the novelty
  classifier answers yes, the entry is skipped at once, and the run consists of the link
  lookup, the call of the classifier and its request, with no fetch, extraction,
  classification, generation or publication.  When the classifier answers anything else,
  \<open>None\<close> (the call failed) included, the orchestrator goes on and fetches the entry's
  page.  The answer is \<open>None\<close> exactly when the call raises or returns no content, and yes
  exactly when the reply is the affirmative token.
\<close>

theorem novelty_gate:
  assumes "entry_link e = Some lnk" and "entry_title e = Some new_title"
    and "already_exists w lnk s = (Inr False, s1)"
    and "is_title_similar_with_chatgpt w new_title titles s1 = (similar, s2)"
  shows "(similar = Some True \<longrightarrow>
            process_entry w titles e s = (Inr (), s2) \<and>
            new_events s s2 =
              [DbSelectLink lnk, TitleSimilar new_title, OpenAI (title_prompt new_title titles)]) \<and>
         (similar \<noteq> Some True \<longrightarrow>
            (\<exists>evs. log (snd (process_entry w titles e s)) = log s2 @ HttpGet lnk # evs)) \<and>
         (similar = None \<longleftrightarrow>
            chat_completion w (Suc (tick s1)) (title_prompt new_title titles)
              \<in> {ChatRaises, ChatContent None}) \<and>
         (similar = Some True \<longleftrightarrow>
            (\<exists>c. chat_completion w (Suc (tick s1)) (title_prompt new_title titles) =
                    ChatContent (Some c) \<and> affirmative c))"
proof (intro conjI impI)
  assume yes: "similar = Some True"
  from assms yes show "process_entry w titles e s = (Inr (), s2)"
    by (simp add: process_entry_def entry_body_def truthy_bool_def)
  have "log s1 = log s @ [DbSelectLink lnk]"
    using assms(3) by (auto simp add: already_exists_def split: if_splits)
  moreover have "log s2 = log s1 @ [TitleSimilar new_title, OpenAI (title_prompt new_title titles)]"
    using assms(4) by (auto simp add: is_title_similar_result)
  ultimately show "new_events s s2 =
      [DbSelectLink lnk, TitleSimilar new_title, OpenAI (title_prompt new_title titles)]"
    by (simp add: new_events_def)
next
  assume no: "similar \<noteq> Some True"
  then have nt: "\<not> truthy_bool similar" by (cases similar) (auto simp add: truthy_bool_def)
  obtain r s' where ap: "article_processing w lnk new_title s2 = (r, s')" by fastforce
  from article_processing_log [OF ap] obtain evs where evs: "log s' = log s2 @ HttpGet lnk # evs"
    by blast
  from assms nt ap have body: "entry_body w titles e s = (r, s')"
    by (simp add: entry_body_def)
  show "\<exists>evs. log (snd (process_entry w titles e s)) = log s2 @ HttpGet lnk # evs"
  proof (cases r)
    case (Inl x)
    with body assms(1) evs have "log (snd (process_entry w titles e s)) =
        log s2 @ HttpGet lnk # (evs @ [ArticleProcessingError x])"
      by (simp add: process_entry_def)
    then show ?thesis by blast
  next
    case (Inr u)
    with body evs have "log (snd (process_entry w titles e s)) = log s2 @ HttpGet lnk # evs"
      by (simp add: process_entry_def)
    then show ?thesis by blast
  qed
next
  show "similar = None \<longleftrightarrow>
      chat_completion w (Suc (tick s1)) (title_prompt new_title titles) \<in> {ChatRaises, ChatContent None}"
    using assms(4) by (auto simp add: is_title_similar_result split: chat_result.splits option.splits)
next
  show "similar = Some True \<longleftrightarrow>
      (\<exists>c. chat_completion w (Suc (tick s1)) (title_prompt new_title titles) =
              ChatContent (Some c) \<and> affirmative c)"
    using assms(4) by (auto simp add: is_title_similar_result split: chat_result.splits option.splits)
qed

theorem novelty_gate_witness:
  "process_entry w_similar [] e_a1 s_init =
     (Inr (),
      \<lparr>store = [], tick = 3,
       log = [DbSelectLink ''https://a/1'', TitleSimilar ''X launches Y'',
              OpenAI (title_prompt ''X launches Y'' [])]\<rparr>) \<and>
   (\<exists>evs. log (snd (process_entry w_novelty_down [] e_a1 s_init)) =
      [DbSelectLink ''https://a/1'', TitleSimilar ''X launches Y'',
       OpenAI (title_prompt ''X launches Y'' [])] @ HttpGet ''https://a/1'' # evs)"
proof -
  let ?s1 = "\<lparr>store = [], tick = 1, log = [DbSelectLink ''https://a/1'']\<rparr>"
  let ?s2 = "\<lparr>store = [], tick = 3,
       log = [DbSelectLink ''https://a/1'', TitleSimilar ''X launches Y'',
              OpenAI (title_prompt ''X launches Y'' [])]\<rparr>"
  have l: "entry_link e_a1 = Some ''https://a/1''" and t: "entry_title e_a1 = Some ''X launches Y''"
    by (simp_all add: e_a1_def)
  have a1: "already_exists w_similar ''https://a/1'' s_init = (Inr False, ?s1)"
    by (simp add: already_exists_def world_defs emit_def)
  have a2: "already_exists w_novelty_down ''https://a/1'' s_init = (Inr False, ?s1)"
    by (simp add: already_exists_def world_defs emit_def)
  have n1: "is_title_similar_with_chatgpt w_similar ''X launches Y'' [] ?s1 = (Some True, ?s2)"
    by (simp add: is_title_similar_with_chatgpt_def world_defs emit_def py_lower_def py_strip_def
        isspace_def lower_char_def char_of_eq_iff)
  have n2: "is_title_similar_with_chatgpt w_novelty_down ''X launches Y'' [] ?s1 = (None, ?s2)"
    by (simp add: is_title_similar_with_chatgpt_def world_defs emit_def)
  from novelty_gate [OF l t a1 n1]
  have 1: "process_entry w_similar [] e_a1 s_init = (Inr (), ?s2)" by simp
  from novelty_gate [OF l t a2 n2]
  have 2: "\<exists>evs. log (snd (process_entry w_novelty_down [] e_a1 s_init)) =
      log ?s2 @ HttpGet ''https://a/1'' # evs"
    by simp
  from 1 2 show ?thesis by simp
qed

text \<open>
  The claim as stated fails: with the service down for the novelty question the
  classifier returns \<open>None\<close>, and the entry is fetched, classified, summarised, published
  and saved.
\<close>

theorem novelty_unknown_is_published:
  "fst (is_title_similar_with_chatgpt w_novelty_down ''X launches Y'' []
          (snd (already_exists w_novelty_down ''https://a/1'' s_init))) = None \<and>
   process_entry w_novelty_down [] e_a1 s_init =
    (Inr (),
     \<lparr>store = [article_a1], tick = 13,
      log = [DbSelectLink ''https://a/1'', TitleSimilar ''X launches Y'',
             OpenAI (title_prompt ''X launches Y'' []), HttpGet ''https://a/1'',
             CleanHtml ''<html>X launched Y</html>'', FilterArticle ''X launched Y'',
             OpenAI ''Relevant? X launched Y'', GenerateContent ''X launched Y'',
             OpenAI ''Summarize X launched Y https://a/1'', FindOgImage ''<html>X launched Y</html>'',
             SendMessage ''X has launched Y.'', Delivered ''https://t.me/100123/42'',
             DbInsert ''https://a/1'']\<rparr>)"
  using run_novelty_down
  by (simp add: is_title_similar_with_chatgpt_def already_exists_def world_defs emit_def)

subsection \<open>C2: empty extracted text\<close>

text \<open>
  Claim C2, amended.  A parse failure or a timeout gives the empty text, and the
  relevance classifier is called with whatever text was extracted, the empty one too.  An
  entry with blank text still ends without publication: either the classifier does not
  answer yes, or \<open>generate_content\<close> returns \<open>None\<close> for the blank text without calling the
  service.  Nothing is sent and the store is unchanged.
\<close>

theorem empty_text_still_classified:
  assumes "requests_get w (tick s) lnk = Some html"
    and "clean_html w html (emit (HttpGet lnk) s) = (cleaned_text, s4)"
    and "filter_article w cleaned_text lnk s4 = (passed, s5)"
  shows "(soup_text w (Suc (tick s)) html \<in> {ParseRaises, ParseTimeout} \<longrightarrow> cleaned_text = []) \<and>
         (\<exists>evs. log s5 = log s4 @ FilterArticle cleaned_text # evs) \<and>
         (py_strip cleaned_text = [] \<longrightarrow>
            article_processing w lnk new_title s =
              (case passed of
                 Inl x \<Rightarrow> (Inl x, s5)
               | Inr p \<Rightarrow>
                   (Inr (), if p = Some True then emit (GenerateContent cleaned_text) s5 else s5)) \<and>
            before_publish s (snd (article_processing w lnk new_title s)))"
proof (intro conjI impI)
  assume "soup_text w (Suc (tick s)) html \<in> {ParseRaises, ParseTimeout}"
  with assms(2) show "cleaned_text = []"
    by (auto simp add: clean_html_def)
next
  from assms(3) show "\<exists>evs. log s5 = log s4 @ FilterArticle cleaned_text # evs"
    by (rule filter_article_log)
next
  assume blank: "py_strip cleaned_text = []"
  show run: "article_processing w lnk new_title s =
      (case passed of
         Inl x \<Rightarrow> (Inl x, s5)
       | Inr p \<Rightarrow> (Inr (), if p = Some True then emit (GenerateContent cleaned_text) s5 else s5))"
    using assms blank
    by (cases passed)
      (auto simp add: article_processing_def generate_content_blank truthy_bool_def truthy_str_def
        split: option.splits)
  have q3: "before_publish s (emit (HttpGet lnk) s)"
    by (simp add: before_publish_emit)
  have q5: "before_publish s s5"
    using q3 clean_html_quiet [OF assms(2)] filter_article_quiet [OF assms(3)]
    by (meson before_publish_trans)
  then have q6: "before_publish s (emit (GenerateContent cleaned_text) s5)"
    by (simp add: before_publish_emit)
  from q5 q6 show "before_publish s (snd (article_processing w lnk new_title s))"
    unfolding run by (cases passed) auto
qed

theorem empty_text_still_classified_witness:
  "requests_get w_timeout 3 ''https://a/1'' = Some ''<html>X launched Y</html>'' \<and>
   soup_text w_timeout 4 ''<html>X launched Y</html>'' = ParseTimeout \<and>
   article_processing w_timeout ''https://a/1'' ''X launches Y'' \<lparr>store = [], tick = 3, log = []\<rparr> =
     (Inr (),
      \<lparr>store = [], tick = 8,
       log = [HttpGet ''https://a/1'', CleanHtml ''<html>X launched Y</html>'', FilterArticle [],
              OpenAI ''Relevant? '', GenerateContent []]\<rparr>)"
proof -
  let ?html = "''<html>X launched Y</html>''"
  let ?s = "\<lparr>store = [], tick = 3, log = []\<rparr>"
  let ?s4 = "\<lparr>store = [], tick = 5, log = [HttpGet ''https://a/1'', CleanHtml ?html]\<rparr>"
  let ?s5 = "\<lparr>store = [], tick = 7,
       log = [HttpGet ''https://a/1'', CleanHtml ?html, FilterArticle [], OpenAI ''Relevant? '']\<rparr>"
  have g: "requests_get w_timeout (tick ?s) ''https://a/1'' = Some ?html"
    by (simp add: world_defs)
  have c: "clean_html w_timeout ?html (emit (HttpGet ''https://a/1'') ?s) = ([], ?s4)"
    by (simp add: clean_html_def world_defs emit_def)
  have f: "filter_article w_timeout [] ''https://a/1'' ?s4 = (Inr (Some True), ?s5)"
    by (simp add: filter_article_def world_defs emit_def py_lower_def py_strip_def isspace_def
        lower_char_def char_of_eq_iff)
  have p: "soup_text w_timeout 4 ?html = ParseTimeout"
    by (simp add: world_defs)
  have b: "py_strip [] = []" by (simp add: py_strip_def)
  from empty_text_still_classified [OF g c f, of "''X launches Y''"] b
  have "article_processing w_timeout ''https://a/1'' ''X launches Y'' ?s =
      (Inr (), emit (GenerateContent []) ?s5)"
    by simp
  with g p show ?thesis by (simp add: emit_def)
qed

text \<open>
  The claim as stated fails: the extraction times out, the text is empty, and
  \<open>filter_article\<close> is called with it (and sends its request).
\<close>

theorem timeout_text_is_classified:
  "fst (clean_html w_timeout ''<html>X launched Y</html>''
          \<lparr>store = [], tick = 4,
           log = [DbSelectLink ''https://a/1'', TitleSimilar ''X launches Y'',
                  OpenAI (title_prompt ''X launches Y'' []), HttpGet ''https://a/1'']\<rparr>) = [] \<and>
   process_entry w_timeout [] e_a1 s_init =
    (Inr (),
     \<lparr>store = [], tick = 8,
      log = [DbSelectLink ''https://a/1'', TitleSimilar ''X launches Y'',
             OpenAI (title_prompt ''X launches Y'' []), HttpGet ''https://a/1'',
             CleanHtml ''<html>X launched Y</html>'', FilterArticle [],
             OpenAI ''Relevant? '', GenerateContent []]\<rparr>)"
  using run_timeout by (simp add: clean_html_def world_defs)

subsection \<open>C3: records only after publication\<close>

text \<open>
  Claim C3.  Whatever happens while an entry is processed, the store is either left as
  it was or gains exactly one record: that of the entry's link, holding the reference of
  a message that was delivered in this very run.  In a run in which no delivery
  succeeded the store is unchanged.
\<close>

theorem record_only_after_publication:
  assumes "process_entry w titles e s = (r, s')"
  shows "(store s' = store s \<or>
          (\<exists>a ref. store s' = store s @ [a] \<and> entry_link e = Some (link a) \<and>
             telegram_link a = Some ref \<and> ref \<noteq> [] \<and> Delivered ref \<in> set (new_events s s'))) \<and>
         ((\<forall>ref. Delivered ref \<notin> set (new_events s s')) \<longrightarrow> store s' = store s)"
proof -
  from process_entry_trace [OF assms] obtain pre where
    alt: "(log s' = log s @ pre \<and> store s' = store s) \<or>
      (\<exists>post photo_url. r = Inr () \<and> store s' = store s \<and>
         log s' = log s @ pre @ concat (replicate 3 [send_event post photo_url, Sleep (seconds 5)])) \<or>
      (\<exists>post photo_url k ref lnk. k < 3 \<and> ref \<noteq> [] \<and> entry_link e = Some lnk \<and>
         lnk \<notin> set (map link (store s)) \<and> r = Inr () \<and>
         ((store s' = store s \<and>
           log s' = log s @ pre @ concat (replicate k [send_event post photo_url, Sleep (seconds 5)]) @
             [send_event post photo_url, Delivered ref, DbInsert lnk,
              ArticleProcessingError OperationalError]) \<or>
          (log s' = log s @ pre @ concat (replicate k [send_event post photo_url, Sleep (seconds 5)]) @
             [send_event post photo_url, Delivered ref, DbInsert lnk] \<and>
           (\<exists>a. store s' = store s @ [a] \<and> link a = lnk \<and> telegram_link a = Some ref))))"
    by blast
  have first: "store s' = store s \<or>
          (\<exists>a ref. store s' = store s @ [a] \<and> entry_link e = Some (link a) \<and>
             telegram_link a = Some ref \<and> ref \<noteq> [] \<and> Delivered ref \<in> set (new_events s s'))"
    using alt by (elim disjE exE conjE) (auto simp add: new_events_append)
  moreover have "store s' = store s" if "\<forall>ref. Delivered ref \<notin> set (new_events s s')"
    using first that by auto
  ultimately show ?thesis by blast
qed

theorem record_only_after_publication_witness:
  "Delivered ''https://t.me/100123/42''
     \<in> set (new_events s_init (snd (process_entry w_ok [] e_a1 s_init))) \<and>
   store (snd (process_entry w_ok [] e_a1 s_init)) = store s_init @ [article_a1] \<and>
   (\<forall>ref. Delivered ref \<notin> set (new_events s_init (snd (process_entry w_telegram_down [] e_a1 s_init)))) \<and>
   store (snd (process_entry w_telegram_down [] e_a1 s_init)) = store s_init"
proof -
  let ?ok = "process_entry w_ok [] e_a1 s_init"
  let ?down = "process_entry w_telegram_down [] e_a1 s_init"
  have d: "Delivered ''https://t.me/100123/42'' \<in> set (new_events s_init (snd ?ok))"
    unfolding run_ok by (simp add: new_events_def s_init_def)
  have st: "store (snd ?ok) = store s_init @ [article_a1]"
    unfolding run_ok by (simp add: s_init_def article_a1_def)
  have n: "\<forall>ref. Delivered ref \<notin> set (new_events s_init (snd ?down))"
    unfolding run_telegram_down by (auto simp add: new_events_def s_init_def)
  have "?down = (fst ?down, snd ?down)" by simp
  from record_only_after_publication [OF this] n
  have "store (snd ?down) = store s_init" by blast
  with d st n show ?thesis by blast
qed

subsection \<open>C4: the relevance classifier\<close>

text \<open>
  Claim C4.  \<open>filter_article\<close> answers \<open>Some True\<close> exactly for a reply that is the
  affirmative token, \<open>Some False\<close> for any other reply, and \<open>None\<close> when the call raises (or
  returns no content).  For every answer other than \<open>Some True\<close>, and also when the
  function itself raises, the processing of the article ends right after the call of the
  filter: nothing is generated, sent or saved.
\<close>

theorem filter_article_tristate:
  "(filter_prompt w (take 3000 cleaned_text) = Some prompt \<longrightarrow>
      fst (filter_article w cleaned_text lnk s0) =
        (case chat_completion w (Suc (tick s0)) prompt of
           ChatRaises \<Rightarrow> Inr None
         | ChatContent None \<Rightarrow> Inr None
         | ChatContent (Some c) \<Rightarrow> Inr (Some (affirmative c)))) \<and>
   (requests_get w (tick s) lnk = Some html \<and>
    clean_html w html (emit (HttpGet lnk) s) = (cleaned_text, s4) \<and>
    filter_article w cleaned_text lnk s4 = (passed, s5) \<and>
    passed \<noteq> Inr (Some True) \<longrightarrow>
      article_processing w lnk new_title s =
        ((case passed of Inl x \<Rightarrow> Inl x | Inr p \<Rightarrow> Inr ()), s5))"
proof (intro conjI impI)
  assume "filter_prompt w (take 3000 cleaned_text) = Some prompt"
  then show "fst (filter_article w cleaned_text lnk s0) =
        (case chat_completion w (Suc (tick s0)) prompt of
           ChatRaises \<Rightarrow> Inr None
         | ChatContent None \<Rightarrow> Inr None
         | ChatContent (Some c) \<Rightarrow> Inr (Some (affirmative c)))"
    by (simp add: filter_article_result)
next
  assume h: "requests_get w (tick s) lnk = Some html \<and>
    clean_html w html (emit (HttpGet lnk) s) = (cleaned_text, s4) \<and>
    filter_article w cleaned_text lnk s4 = (passed, s5) \<and>
    passed \<noteq> Inr (Some True)"
  then show "article_processing w lnk new_title s =
        ((case passed of Inl x \<Rightarrow> Inl x | Inr p \<Rightarrow> Inr ()), s5)"
    by (cases passed)
      (auto simp add: article_processing_def truthy_bool_def split: option.splits)
qed

theorem filter_article_tristate_witness:
  "fst (filter_article w_ok ''X launched Y'' ''https://a/1''
         \<lparr>store = [], tick = 5, log = []\<rparr>) = Inr (Some True) \<and>
   affirmative '' Yes '' \<and>
   fst (filter_article w_rejected ''X launched Y'' ''https://a/1''
         \<lparr>store = [], tick = 5, log = []\<rparr>) = Inr (Some False) \<and>
   \<not> affirmative ''Yes, it is.'' \<and>
   article_processing w_rejected ''https://a/1'' ''X launches Y''
       \<lparr>store = [], tick = 3, log = []\<rparr> =
     (Inr (),
      \<lparr>store = [], tick = 7,
       log = [HttpGet ''https://a/1'', CleanHtml ''<html>X launched Y</html>'',
              FilterArticle ''X launched Y'', OpenAI ''Relevant? X launched Y'']\<rparr>)"
proof -
  let ?html = "''<html>X launched Y</html>''"
  let ?start = "\<lparr>store = [], tick = 3, log = []\<rparr>"
  let ?before = "\<lparr>store = [], tick = 5, log = []\<rparr>"
  let ?cleaned = "\<lparr>store = [], tick = 5, log = [HttpGet ''https://a/1'', CleanHtml ?html]\<rparr>"
  let ?filtered = "\<lparr>store = [], tick = 7,
       log = [HttpGet ''https://a/1'', CleanHtml ?html, FilterArticle ''X launched Y'',
              OpenAI ''Relevant? X launched Y'']\<rparr>"
  have yes: "affirmative '' Yes ''"
    unfolding strip_lower_yes [symmetric]
    by (simp add: py_lower_def py_strip_def isspace_def lower_char_def char_of_eq_iff)
  have no: "\<not> affirmative ''Yes, it is.''"
    unfolding strip_lower_yes [symmetric]
    by (simp add: py_lower_def py_strip_def isspace_def lower_char_def char_of_eq_iff)
  have p1: "filter_prompt w_ok (take 3000 ''X launched Y'') = Some ''Relevant? X launched Y''"
    by (simp add: world_defs)
  have p2: "filter_prompt w_rejected (take 3000 ''X launched Y'') = Some ''Relevant? X launched Y''"
    by (simp add: world_defs)
  have c1: "chat_completion w_ok (Suc (tick ?before)) ''Relevant? X launched Y'' = ChatContent (Some '' Yes '')"
    by (simp add: world_defs)
  have c2: "chat_completion w_rejected (Suc (tick ?before)) ''Relevant? X launched Y'' =
      ChatContent (Some ''Yes, it is.'')"
    by (simp add: world_defs)
  have g: "requests_get w_rejected (tick ?start) ''https://a/1'' = Some ?html"
    by (simp add: world_defs)
  have c: "clean_html w_rejected ?html (emit (HttpGet ''https://a/1'') ?start) = (''X launched Y'', ?cleaned)"
    by (simp add: clean_html_def world_defs emit_def py_strip_def isspace_def)
  have f: "filter_article w_rejected ''X launched Y'' ''https://a/1'' ?cleaned = (Inr (Some False), ?filtered)"
    by (simp add: filter_article_def world_defs emit_def py_lower_def py_strip_def isspace_def
        lower_char_def char_of_eq_iff)
  note t1 = filter_article_tristate [of w_ok "''X launched Y''" "''Relevant? X launched Y''"
      "''https://a/1''" ?before]
  note t2 = filter_article_tristate [of w_rejected "''X launched Y''" "''Relevant? X launched Y''"
      "''https://a/1''" ?before ?start ?html ?cleaned "Inr (Some False)" ?filtered "''X launches Y''"]
  from t1 p1 c1 yes
  have 1: "fst (filter_article w_ok ''X launched Y'' ''https://a/1'' ?before) = Inr (Some True)"
    by simp
  from t2 p2 c2 no
  have 2: "fst (filter_article w_rejected ''X launched Y'' ''https://a/1'' ?before) = Inr (Some False)"
    by simp
  from t2 g c f
  have 3: "article_processing w_rejected ''https://a/1'' ''X launches Y'' ?start = (Inr (), ?filtered)"
    by simp
  from 1 2 3 yes no show ?thesis by simp
qed

subsection \<open>C5: the publisher's retries\<close>

text \<open>
  Claim C5.  When the delivery fails at each of the three attempts, \<open>publish_to_telegram\<close>
  makes exactly three attempts, sleeps five seconds after each of them, and returns
  \<open>None\<close>.  When the first \<open>k\<close> attempts fail and attempt \<open>k + 1\<close> (of the three) succeeds,
  it stops there and returns the link of the message: \<open>k\<close> failed attempts, each followed
  by a sleep of five seconds, then the attempt that delivered.
\<close>

theorem publish_to_telegram_retries:
  "((\<forall>i<3. delivery w post photo_url (tick s + 2 * i) = None) \<longrightarrow>
      publish_to_telegram w post photo_url s =
        (None, s\<lparr>tick := tick s + 6,
                 log := log s @ concat (replicate 3 [send_event post photo_url, Sleep (seconds 5)])\<rparr>)) \<and>
   (\<forall>k<3. (\<forall>i<k. delivery w post photo_url (tick s + 2 * i) = None) \<and>
            delivery w post photo_url (tick s + 2 * k) = Some r \<longrightarrow>
      publish_to_telegram w post photo_url s =
        (Some r, s\<lparr>tick := tick s + 2 * k + 2,
                   log := log s @ concat (replicate k [send_event post photo_url, Sleep (seconds 5)]) @
                          [send_event post photo_url, Delivered r]\<rparr>))"
  unfolding publish_to_telegram_def
  using attempts_all_fail [of 3 w post photo_url s] attempts_success_at [of _ 3 w post photo_url s r]
  by auto

theorem publish_to_telegram_retries_witness:
  "publish_to_telegram w_flaky ''post'' None s_init =
     (Some ''https://t.me/100123/42'',
      \<lparr>store = [], tick = 4,
       log = [SendMessage ''post'', Sleep 5000000, SendMessage ''post'',
              Delivered ''https://t.me/100123/42'']\<rparr>) \<and>
   publish_to_telegram w_flaky ''post'' (Some ''https://a/i.png'') s_init =
     (None,
      \<lparr>store = [], tick = 6,
       log = [SendPhoto ''https://a/i.png'' ''post'', Sleep 5000000,
              SendPhoto ''https://a/i.png'' ''post'', Sleep 5000000,
              SendPhoto ''https://a/i.png'' ''post'', Sleep 5000000]\<rparr>)"
proof -
  have f: "\<forall>i<3. delivery w_flaky ''post'' (Some ''https://a/i.png'') (tick s_init + 2 * i) = None"
    by (simp add: delivery_def w_flaky_def w_ok_def truthy_str_def)
  have g: "(\<forall>i<1. delivery w_flaky ''post'' None (tick s_init + 2 * i) = None) \<and>
            delivery w_flaky ''post'' None (tick s_init + 2 * 1) = Some ''https://t.me/100123/42''"
    by (simp add: delivery_def w_flaky_def w_ok_def truthy_str_def s_init_def telegram_message_link_def str_nat_42)
  from publish_to_telegram_retries [of w_flaky "''post''" "Some ''https://a/i.png''" s_init] f
  have 1: "publish_to_telegram w_flaky ''post'' (Some ''https://a/i.png'') s_init =
        (None, s_init\<lparr>tick := tick s_init + 6,
                 log := log s_init @ concat (replicate 3 [send_event ''post'' (Some ''https://a/i.png''), Sleep (seconds 5)])\<rparr>)"
    by blast
  have "(1::nat) < 3" by simp
  with publish_to_telegram_retries [of w_flaky "''post''" None s_init "''https://t.me/100123/42''"] g
  have 2: "publish_to_telegram w_flaky ''post'' None s_init =
        (Some ''https://t.me/100123/42'', s_init\<lparr>tick := tick s_init + 2 * 1 + 2,
                   log := log s_init @ concat (replicate 1 [send_event ''post'' None, Sleep (seconds 5)]) @
                          [send_event ''post'' None, Delivered ''https://t.me/100123/42'']\<rparr>)"
    by blast
  show ?thesis
    unfolding 1 2 by (simp add: s_init_def send_event_def truthy_str_def seconds_def numeral_3_eq_3)
qed

subsection \<open>C6: idempotent insert\<close>

text \<open>
  Claim C6.  In a store that obeys \<^verbatim>\<open>link TEXT UNIQUE\<close>, saving an article whose link is
  stored already changes no record, leaves exactly one record with that link, and (when
  the database itself works) returns normally: the IntegrityError does not reach the
  caller.
\<close>

theorem save_article_to_db_idempotent:
  assumes "distinct (map link (store s))" and "lnk \<in> set (map link (store s))"
  shows "store (snd (save_article_to_db w lnk ttl kws tlink s)) = store s \<and>
         length (filter (\<lambda>a. link a = lnk) (store (snd (save_article_to_db w lnk ttl kws tlink s)))) = 1 \<and>
         (\<not> db_fault w (tick s) \<longrightarrow> fst (save_article_to_db w lnk ttl kws tlink s) = Inr ())"
  using assms by (simp add: save_existing count_distinct_link)

theorem save_article_to_db_idempotent_witness:
  "distinct (map link (store s_one)) \<and> ''https://a/1'' \<in> set (map link (store s_one)) \<and>
   \<not> db_fault w_ok (tick s_one) \<and>
   fst (save_article_to_db w_ok ''https://a/1'' ''Other title'' ''other text'' None s_one) = Inr () \<and>
   store (snd (save_article_to_db w_ok ''https://a/1'' ''Other title'' ''other text'' None s_one)) =
     store s_one \<and>
   length (filter (\<lambda>a. link a = ''https://a/1'')
     (store (snd (save_article_to_db w_ok ''https://a/1'' ''Other title'' ''other text'' None s_one)))) = 1"
proof -
  have d: "distinct (map link (store s_one))" by (simp add: s_one_def)
  have m: "''https://a/1'' \<in> set (map link (store s_one))" by (simp add: s_one_def article_a1_def)
  have f: "\<not> db_fault w_ok (tick s_one)" by (simp add: w_ok_def)
  note t = save_article_to_db_idempotent [OF d m, of w_ok "''Other title''" "''other text''" None]
  from t f d m show ?thesis by blast
qed

subsection \<open>C7: eviction\<close>

text \<open>
  Claim C7 fails on the code.  The cutoff is \<^verbatim>\<open>datetime.now() - timedelta(days=7)\<close>, a
  local time, while the column holds \<^verbatim>\<open>CURRENT_TIMESTAMP\<close>, which is UTC.  On a host three
  hours east of UTC a record that is six days and twenty-two hours old is younger than
  seven days and is removed all the same.
\<close>

theorem cleanup_local_clock:
  "utc_now w_east 0 - timedelta_days 7 < datetime article_a1 \<and>
   cleanup_old_articles w_east s_one = (Inr (), \<lparr>store = [], tick = 1, log = [DbDelete]\<rparr>)"
  by (simp add: cleanup_old_articles_def w_east_def w_ok_def s_one_def article_a1_def emit_def
      datetime_now_def timedelta_days_def timedelta_hours_def seconds_def)

subsection \<open>C8: exceptions in the main loop\<close>

text \<open>
  Claim C8 fails on the code.  \<^verbatim>\<open>wait_until_next_hour()\<close> is the last statement inside
  the \<^verbatim>\<open>try\<close> of the loop, so an exception in a cycle skips it: the handler logs, and the
  next cycle starts at once.  With a database that fails whenever it is used, two passes
  of the loop follow each other with no sleep between them.
\<close>

theorem main_loop_error_retries_at_once:
  "main 2 w_locked s_init =
     \<lparr>store = [], tick = 9,
      log = [Sleep (seconds 2800), CycleStart, ParseFeed ''https://feed'', DbSelectTitles,
             MainLoopError OperationalError, CycleStart, ParseFeed ''https://feed'', DbSelectTitles,
             MainLoopError OperationalError]\<rparr>"
  by (simp add: main_def numeral_2_eq_2 cycle_def cycle_body_def process_rss_feed_def
      wait_until_next_hour_def datetime_now_def timedelta_hours_def seconds_def emit_def world_defs)

subsection \<open>C9: no text-only fallback\<close>

text \<open>
  Claim C9.  In a run that tried to send a photo (the image resolver returned a URL) and
  in which no delivery succeeded, the entry is skipped: the photo was tried exactly three
  times, no text message was sent instead, nothing was inserted and the store is
  unchanged.
\<close>

theorem photo_failure_no_text_fallback:
  assumes "process_entry w titles e s = (r, s')"
    and "SendPhoto url post \<in> set (new_events s s')"
    and "\<forall>ref. Delivered ref \<notin> set (new_events s s')"
  shows "r = Inr () \<and> store s' = store s \<and>
         length (filter (\<lambda>ev. ev = SendPhoto url post) (new_events s s')) = 3 \<and>
         list_all (\<lambda>ev. case ev of SendMessage p \<Rightarrow> False | DbInsert l \<Rightarrow> False | _ \<Rightarrow> True)
           (new_events s s')"
proof -
  from process_entry_trace [OF assms(1)] obtain pre where
    pre: "list_all (\<lambda>ev. \<not> publishing ev) pre" and
    alt: "(log s' = log s @ pre \<and> store s' = store s) \<or>
      (\<exists>post photo_url. r = Inr () \<and> store s' = store s \<and>
         log s' = log s @ pre @ concat (replicate 3 [send_event post photo_url, Sleep (seconds 5)])) \<or>
      (\<exists>post photo_url k ref lnk. k < 3 \<and> ref \<noteq> [] \<and> entry_link e = Some lnk \<and>
         lnk \<notin> set (map link (store s)) \<and> r = Inr () \<and>
         ((store s' = store s \<and>
           log s' = log s @ pre @ concat (replicate k [send_event post photo_url, Sleep (seconds 5)]) @
             [send_event post photo_url, Delivered ref, DbInsert lnk,
              ArticleProcessingError OperationalError]) \<or>
          (log s' = log s @ pre @ concat (replicate k [send_event post photo_url, Sleep (seconds 5)]) @
             [send_event post photo_url, Delivered ref, DbInsert lnk] \<and>
           (\<exists>a. store s' = store s @ [a] \<and> link a = lnk \<and> telegram_link a = Some ref))))"
    by blast
  have nopre: "SendPhoto url post \<notin> set pre"
    using not_publishing_set [OF pre] by fastforce
  have quietpre: "list_all (\<lambda>ev. case ev of SendMessage p \<Rightarrow> False | DbInsert l \<Rightarrow> False | _ \<Rightarrow> True) pre"
    using pre by (induction pre) (auto split: event.splits)
  from alt consider
      (quiet) "log s' = log s @ pre"
    | (failed) p photo_url where "r = Inr ()" "store s' = store s"
        "log s' = log s @ pre @ concat (replicate 3 [send_event p photo_url, Sleep (seconds 5)])"
    | (sent) ref where "Delivered ref \<in> set (new_events s s')"
    by (elim disjE exE conjE) (auto simp add: new_events_append)
  then show ?thesis
  proof cases
    case quiet
    with assms(2) nopre show ?thesis by (simp add: new_events_append)
  next
    case failed
    let ?retries = "concat (replicate 3 [send_event p photo_url, Sleep (seconds 5)])"
    have ne: "new_events s s' = pre @ ?retries" using failed(3) by (rule new_events_append)
    with assms(2) nopre have "SendPhoto url post \<in> set ?retries" by simp
    with set_retries [of 3 "send_event p photo_url" "Sleep (seconds 5)"]
    have se: "send_event p photo_url = SendPhoto url post" by auto
    have "filter (\<lambda>ev. ev = SendPhoto url post) pre = []"
      using pre by (rule filter_not_publishing) simp
    moreover have "length (filter (\<lambda>ev. ev = SendPhoto url post)
        (concat (replicate 3 [SendPhoto url post, Sleep (seconds 5)]))) = 3"
      by (rule filter_retries) simp
    ultimately have count: "length (filter (\<lambda>ev. ev = SendPhoto url post) (new_events s s')) = 3"
      by (simp add: ne se)
    have "list_all (\<lambda>ev. case ev of SendMessage p \<Rightarrow> False | DbInsert l \<Rightarrow> False | _ \<Rightarrow> True)
           (new_events s s')"
      using quietpre by (simp add: ne se numeral_3_eq_3)
    with failed(1,2) count show ?thesis by simp
  next
    case sent
    with assms(3) show ?thesis by blast
  qed
qed

theorem photo_failure_no_text_fallback_witness:
  "SendPhoto ''https://a/i.png'' ''X has launched Y.''
     \<in> set (new_events s_init (snd (process_entry w_photo_down [] e_a1 s_init))) \<and>
   (\<forall>ref. Delivered ref \<notin> set (new_events s_init (snd (process_entry w_photo_down [] e_a1 s_init)))) \<and>
   fst (process_entry w_photo_down [] e_a1 s_init) = Inr () \<and>
   store (snd (process_entry w_photo_down [] e_a1 s_init)) = store s_init \<and>
   length (filter (\<lambda>ev. ev = SendPhoto ''https://a/i.png'' ''X has launched Y.'')
     (new_events s_init (snd (process_entry w_photo_down [] e_a1 s_init)))) = 3 \<and>
   list_all (\<lambda>ev. case ev of SendMessage p \<Rightarrow> False | DbInsert l \<Rightarrow> False | _ \<Rightarrow> True)
     (new_events s_init (snd (process_entry w_photo_down [] e_a1 s_init)))"
proof -
  let ?run = "process_entry w_photo_down [] e_a1 s_init"
  have p: "SendPhoto ''https://a/i.png'' ''X has launched Y.'' \<in> set (new_events s_init (snd ?run))"
    unfolding run_photo_down by (simp add: new_events_def s_init_def)
  have n: "\<forall>ref. Delivered ref \<notin> set (new_events s_init (snd ?run))"
    unfolding run_photo_down by (auto simp add: new_events_def s_init_def)
  have r: "?run = (fst ?run, snd ?run)" by simp
  from photo_failure_no_text_fallback [OF r p n] p n show ?thesis by blast
qed

subsection \<open>C10: a failed insert after publication\<close>

text \<open>
  Claim C10.  Take an entry that went through the whole protocol: its link was not
  stored, the title was not judged similar, the page was fetched, the filter said yes, a
  post was generated and \<open>publish_to_telegram\<close> returned the link of the delivered message.
  If the database then fails at the insert with an error other than the duplicate-link
  conflict, \<open>save_article_to_db\<close> raises it, the error leaves the body of the entry and the
  entry's \<^verbatim>\<open>except\<close> absorbs it: \<open>process_entry\<close> returns normally, with the error logged
  right after the delivery and the insert.  The store is unchanged and holds no record of
  the link, so in a later cycle the link lookup finds nothing and the entry goes through
  the novelty check and the article processing again.
\<close>

theorem insert_failure_after_publication:
  assumes "entry_link e = Some lnk" and "entry_title e = Some new_title"
    and "already_exists w lnk s = (Inr False, s1)"
    and "is_title_similar_with_chatgpt w new_title titles s1 = (similar, s2)"
    and "\<not> truthy_bool similar"
    and "requests_get w (tick s2) lnk = Some html"
    and "clean_html w html (emit (HttpGet lnk) s2) = (cleaned_text, s4)"
    and "filter_article w cleaned_text lnk s4 = (Inr (Some True), s5)"
    and "generate_content w cleaned_text lnk s5 = (Inr (Some post), s6)" and "post \<noteq> []"
    and "extract_main_image w html s6 = (photo_url, s7)"
    and "publish_to_telegram w post photo_url s7 = (Some ref, s8)"
    and "db_fault w (tick s8)"
  shows "save_article_to_db w lnk new_title cleaned_text (Some ref) s8 =
           (Inl OperationalError, emit (DbInsert lnk) s8) \<and>
         entry_body w titles e s = (Inl OperationalError, emit (DbInsert lnk) s8) \<and>
         process_entry w titles e s =
           (Inr (), emit (ArticleProcessingError OperationalError) (emit (DbInsert lnk) s8)) \<and>
         (\<exists>evs. new_events s (snd (process_entry w titles e s)) =
            evs @ [Delivered ref, DbInsert lnk, ArticleProcessingError OperationalError]) \<and>
         store (snd (process_entry w titles e s)) = store s \<and>
         lnk \<notin> set (map link (store (snd (process_entry w titles e s)))) \<and>
         (\<forall>w2 titles2. \<not> db_fault w2 (tick (snd (process_entry w titles e s))) \<longrightarrow>
            fst (already_exists w2 lnk (snd (process_entry w titles e s))) = Inr False \<and>
            entry_body w2 titles2 e (snd (process_entry w titles e s)) =
              (case is_title_similar_with_chatgpt w2 new_title titles2
                      (emit (DbSelectLink lnk) (snd (process_entry w titles e s))) of
                 (again, sn) \<Rightarrow>
                   if truthy_bool again then (Inr (), sn)
                   else article_processing w2 lnk new_title sn))"
proof -
  let ?sb = "emit (DbInsert lnk) s8"
  let ?end = "emit (ArticleProcessingError OperationalError) ?sb"
  have sv: "save_article_to_db w lnk new_title cleaned_text (Some ref) s8 = (Inl OperationalError, ?sb)"
    using assms(13) by (rule save_fault)
  from assms(12) have at: "attempts 3 w post photo_url s7 = (Some ref, s8)"
    by (simp add: publish_to_telegram_def)
  from attempts_shape [OF at] obtain k where
    st8: "store s8 = store s7" and ne: "ref \<noteq> []" and
    lg8: "log s8 = log s7 @ concat (replicate k [send_event post photo_url, Sleep (seconds 5)]) @
                 [send_event post photo_url, Delivered ref]"
    by auto
  have ap: "article_processing w lnk new_title s2 = (Inl OperationalError, ?sb)"
    using assms(6-12) ne sv
    by (simp add: article_processing_def truthy_bool_def truthy_str_def)
  have body: "entry_body w titles e s = (Inl OperationalError, ?sb)"
    using assms(1-5) ap by (simp add: entry_body_def)
  have run: "process_entry w titles e s = (Inr (), ?end)"
    using assms(1) body by (rule entry_absorbs)
  have q: "before_publish s s7"
  proof -
    have "before_publish s s1" using assms(3) by (rule already_exists_quiet)
    moreover have "before_publish s1 s2" using assms(4) by (rule is_title_similar_quiet)
    moreover have "before_publish s2 (emit (HttpGet lnk) s2)" by (simp add: before_publish_emit)
    moreover have "before_publish (emit (HttpGet lnk) s2) s4" using assms(7) by (rule clean_html_quiet)
    moreover have "before_publish s4 s5" using assms(8) by (rule filter_article_quiet)
    moreover have "before_publish s5 s6" using assms(9) by (rule generate_content_quiet)
    moreover have "before_publish s6 s7" using assms(11) by (rule extract_main_image_quiet)
    ultimately show ?thesis by (meson before_publish_trans)
  qed
  from before_publishD [OF q] have st7: "store s7 = store s"
    and lg7: "log s7 = log s @ new_events s s7" by simp_all
  have fresh: "lnk \<notin> set (map link (store s))"
    using assms(3) by (auto simp add: already_exists_def split: if_splits)
  have "log ?end = log s @ (new_events s s7 @
      concat (replicate k [send_event post photo_url, Sleep (seconds 5)]) @
      [send_event post photo_url]) @
      [Delivered ref, DbInsert lnk, ArticleProcessingError OperationalError]"
    using lg7 lg8 by simp
  then have "new_events s ?end = (new_events s s7 @
      concat (replicate k [send_event post photo_url, Sleep (seconds 5)]) @
      [send_event post photo_url]) @
      [Delivered ref, DbInsert lnk, ArticleProcessingError OperationalError]"
    by (rule new_events_append)
  then have shape: "\<exists>evs. new_events s ?end =
      evs @ [Delivered ref, DbInsert lnk, ArticleProcessingError OperationalError]"
    by (rule exI)
  have store: "store ?end = store s" using st7 st8 by simp
  with fresh have fresh': "lnk \<notin> set (map link (store ?end))" by simp
  have again: "\<forall>w2 titles2. \<not> db_fault w2 (tick ?end) \<longrightarrow>
            fst (already_exists w2 lnk ?end) = Inr False \<and>
            entry_body w2 titles2 e ?end =
              (case is_title_similar_with_chatgpt w2 new_title titles2
                      (emit (DbSelectLink lnk) ?end) of
                 (again, sn) \<Rightarrow>
                   if truthy_bool again then (Inr (), sn)
                   else article_processing w2 lnk new_title sn)"
  proof (intro allI impI conjI)
    fix w2 :: world and titles2 :: "string list"
    assume ok: "\<not> db_fault w2 (tick ?end)"
    from fresh' ok show "fst (already_exists w2 lnk ?end) = Inr False"
      by (rule already_exists_fresh)
    from assms(1,2) fresh' ok show "entry_body w2 titles2 e ?end =
              (case is_title_similar_with_chatgpt w2 new_title titles2
                      (emit (DbSelectLink lnk) ?end) of
                 (again, sn) \<Rightarrow>
                   if truthy_bool again then (Inr (), sn)
                   else article_processing w2 lnk new_title sn)"
      by (rule entry_body_next)
  qed
  show ?thesis
    unfolding run snd_conv using sv body shape store fresh' again by (intro conjI) simp_all
qed

theorem insert_failure_after_publication_witness:
  "db_fault w_insert_fails 12 \<and>
   publish_to_telegram w_insert_fails ''X has launched Y.'' None
       \<lparr>store = [], tick = 10,
        log = [DbSelectLink ''https://a/1'', TitleSimilar ''X launches Y'',
               OpenAI (title_prompt ''X launches Y'' []), HttpGet ''https://a/1'',
               CleanHtml ''<html>X launched Y</html>'', FilterArticle ''X launched Y'',
               OpenAI ''Relevant? X launched Y'', GenerateContent ''X launched Y'',
               OpenAI ''Summarize X launched Y https://a/1'',
               FindOgImage ''<html>X launched Y</html>'']\<rparr> =
     (Some ''https://t.me/100123/42'',
      \<lparr>store = [], tick = 12,
        log = [DbSelectLink ''https://a/1'', TitleSimilar ''X launches Y'',
               OpenAI (title_prompt ''X launches Y'' []), HttpGet ''https://a/1'',
               CleanHtml ''<html>X launched Y</html>'', FilterArticle ''X launched Y'',
               OpenAI ''Relevant? X launched Y'', GenerateContent ''X launched Y'',
               OpenAI ''Summarize X launched Y https://a/1'',
               FindOgImage ''<html>X launched Y</html>'',
               SendMessage ''X has launched Y.'', Delivered ''https://t.me/100123/42'']\<rparr>) \<and>
   process_entry w_insert_fails [] e_a1 s_init =
     (Inr (),
      \<lparr>store = [], tick = 14,
       log = [DbSelectLink ''https://a/1'', TitleSimilar ''X launches Y'',
              OpenAI (title_prompt ''X launches Y'' []), HttpGet ''https://a/1'',
              CleanHtml ''<html>X launched Y</html>'', FilterArticle ''X launched Y'',
              OpenAI ''Relevant? X launched Y'', GenerateContent ''X launched Y'',
              OpenAI ''Summarize X launched Y https://a/1'', FindOgImage ''<html>X launched Y</html>'',
              SendMessage ''X has launched Y.'', Delivered ''https://t.me/100123/42'',
              DbInsert ''https://a/1'', ArticleProcessingError OperationalError]\<rparr>) \<and>
   fst (already_exists w_next_cycle ''https://a/1''
          (snd (process_entry w_insert_fails [] e_a1 s_init))) = Inr False \<and>
   store (snd (process_entry w_next_cycle [] e_a1
          (snd (process_entry w_insert_fails [] e_a1 s_init)))) = [article_a1]"
proof -
  let ?w = w_insert_fails
  let ?lnk = "''https://a/1''" and ?ttl = "''X launches Y''"
  let ?html = "''<html>X launched Y</html>''" and ?txt = "''X launched Y''"
  let ?post = "''X has launched Y.''" and ?ref = "''https://t.me/100123/42''"
  let ?looked = "\<lparr>store = [], tick = 1, log = [DbSelectLink ?lnk]\<rparr>"
  let ?judged = "\<lparr>store = [], tick = 3,
      log = [DbSelectLink ?lnk, TitleSimilar ?ttl, OpenAI (title_prompt ?ttl [])]\<rparr>"
  let ?cleaned = "\<lparr>store = [], tick = 5,
      log = [DbSelectLink ?lnk, TitleSimilar ?ttl, OpenAI (title_prompt ?ttl []), HttpGet ?lnk,
             CleanHtml ?html]\<rparr>"
  let ?filtered = "\<lparr>store = [], tick = 7,
      log = [DbSelectLink ?lnk, TitleSimilar ?ttl, OpenAI (title_prompt ?ttl []), HttpGet ?lnk,
             CleanHtml ?html, FilterArticle ?txt, OpenAI ''Relevant? X launched Y'']\<rparr>"
  let ?written = "\<lparr>store = [], tick = 9,
      log = [DbSelectLink ?lnk, TitleSimilar ?ttl, OpenAI (title_prompt ?ttl []), HttpGet ?lnk,
             CleanHtml ?html, FilterArticle ?txt, OpenAI ''Relevant? X launched Y'',
             GenerateContent ?txt, OpenAI ''Summarize X launched Y https://a/1'']\<rparr>"
  let ?resolved = "\<lparr>store = [], tick = 10,
      log = [DbSelectLink ?lnk, TitleSimilar ?ttl, OpenAI (title_prompt ?ttl []), HttpGet ?lnk,
             CleanHtml ?html, FilterArticle ?txt, OpenAI ''Relevant? X launched Y'',
             GenerateContent ?txt, OpenAI ''Summarize X launched Y https://a/1'',
             FindOgImage ?html]\<rparr>"
  let ?sent = "\<lparr>store = [], tick = 12,
      log = [DbSelectLink ?lnk, TitleSimilar ?ttl, OpenAI (title_prompt ?ttl []), HttpGet ?lnk,
             CleanHtml ?html, FilterArticle ?txt, OpenAI ''Relevant? X launched Y'',
             GenerateContent ?txt, OpenAI ''Summarize X launched Y https://a/1'',
             FindOgImage ?html, SendMessage ?post, Delivered ?ref]\<rparr>"
  let ?failed = "\<lparr>store = [], tick = 14,
      log = [DbSelectLink ?lnk, TitleSimilar ?ttl, OpenAI (title_prompt ?ttl []), HttpGet ?lnk,
             CleanHtml ?html, FilterArticle ?txt, OpenAI ''Relevant? X launched Y'',
             GenerateContent ?txt, OpenAI ''Summarize X launched Y https://a/1'',
             FindOgImage ?html, SendMessage ?post, Delivered ?ref, DbInsert ?lnk,
             ArticleProcessingError OperationalError]\<rparr>"
  have l: "entry_link e_a1 = Some ?lnk" and t: "entry_title e_a1 = Some ?ttl"
    by (simp_all add: e_a1_def)
  have h3: "already_exists ?w ?lnk s_init = (Inr False, ?looked)"
    by (simp add: already_exists_def world_defs emit_def)
  have h4: "is_title_similar_with_chatgpt ?w ?ttl [] ?looked = (Some False, ?judged)"
    by (simp add: is_title_similar_with_chatgpt_def world_defs emit_def py_lower_def py_strip_def
        isspace_def lower_char_def char_of_eq_iff)
  have h5: "\<not> truthy_bool (Some False)" by (simp add: truthy_bool_def)
  have h6: "requests_get ?w (tick ?judged) ?lnk = Some ?html"
    by (simp add: world_defs)
  have h7: "clean_html ?w ?html (emit (HttpGet ?lnk) ?judged) = (?txt, ?cleaned)"
    by (simp add: clean_html_def world_defs emit_def py_strip_def isspace_def)
  have h8: "filter_article ?w ?txt ?lnk ?cleaned = (Inr (Some True), ?filtered)"
    by (simp add: filter_article_def world_defs emit_def py_lower_def py_strip_def isspace_def
        lower_char_def char_of_eq_iff)
  have h9: "generate_content ?w ?txt ?lnk ?filtered = (Inr (Some ?post), ?written)"
    by (simp add: generate_content_def world_defs emit_def py_strip_def isspace_def)
  have h10: "?post \<noteq> []" by simp
  have h11: "extract_main_image ?w ?html ?written = (None, ?resolved)"
    by (simp add: extract_main_image_def world_defs emit_def)
  have h12: "publish_to_telegram ?w ?post None ?resolved = (Some ?ref, ?sent)"
    by (simp add: publish_to_telegram_def numeral_3_eq_3 attempt_def delivery_def send_event_def
        telegram_message_link_def truthy_str_def world_defs emit_def str_nat_42)
  have h13: "db_fault ?w (tick ?sent)" by (simp add: world_defs)
  note inst = insert_failure_after_publication [OF l t h3 h4 h5 h6 h7 h8 h9 h10 h11 h12 h13]
  from inst have run: "process_entry ?w [] e_a1 s_init =
      (Inr (), emit (ArticleProcessingError OperationalError) (emit (DbInsert ?lnk) ?sent))"
    by blast
  then have run': "process_entry ?w [] e_a1 s_init = (Inr (), ?failed)"
    by (simp add: emit_def)
  have ok: "\<not> db_fault w_next_cycle (tick (snd (process_entry ?w [] e_a1 s_init)))"
    by (simp add: world_defs)
  from inst ok have again: "fst (already_exists w_next_cycle ?lnk
      (snd (process_entry ?w [] e_a1 s_init))) = Inr False"
    by blast
  have twice: "store (snd (process_entry w_next_cycle [] e_a1
      (snd (process_entry ?w [] e_a1 s_init)))) = [article_a1]"
    unfolding run' snd_conv run_next_cycle by simp
  from h13 have f: "db_fault ?w 12" by simp
  from f h12 run' again twice show ?thesis by (intro conjI)
qed

end
